theory Spec2Isabelle
  imports Main "HOL-Library.Word" "HOL-Library.Monad_Syntax"
begin

unbundle bit_operations_syntax

section \<open>Binary layout model (tim2\_types.h)\<close>

text \<open>
  Fixed-width fields are words of their declared width. The host is taken to be
  little-endian with a 64-bit \<open>size_t\<close>, as the source assumes when it reads packed
  structs directly over the file bytes; \<open>size_t\<close> quantities are natural numbers,
  since no computation of the decoder or parser on a file of less than \<open>2^63\<close>
  bytes reaches \<open>2^64\<close>.
\<close>

type_synonym u8 = "8 word"
type_synonym u16 = "16 word"
type_synonym u32 = "32 word"
type_synonym u64 = "64 word"

definition TIM2_FORMAT_VERSION :: u8 where "TIM2_FORMAT_VERSION = 0x04"
definition TIM2_ALIGN_16 :: u8 where "TIM2_ALIGN_16 = 0x00"
definition TIM2_ALIGN_128 :: u8 where "TIM2_ALIGN_128 = 0x01"

text \<open>
  \<open>enum PixelFormat : uint8_t\<close>. The enumeration has a fixed underlying type and the
  source casts arbitrary header bytes to it, so a pixel format is a byte and the
  enumerators are named constants.
\<close>

type_synonym PixelFormat = u8

definition TIM2_NONE :: PixelFormat where "TIM2_NONE = 0x00"
definition TIM2_RGB16 :: PixelFormat where "TIM2_RGB16 = 0x01"
definition TIM2_RGB24 :: PixelFormat where "TIM2_RGB24 = 0x02"
definition TIM2_RGB32 :: PixelFormat where "TIM2_RGB32 = 0x03"
definition TIM2_IDTEX4 :: PixelFormat where "TIM2_IDTEX4 = 0x04"
definition TIM2_IDTEX8 :: PixelFormat where "TIM2_IDTEX8 = 0x05"

record FileHeader =
  fileId :: "u8 list"
  formatVersion :: u8
  formatId :: u8
  pictures :: u16
  reserved :: "u8 list"

record PictureHeader =
  totalSize :: u32
  clutSize :: u32
  imageSize :: u32
  headerSize :: u16
  clutColors :: u16
  pictFormat :: u8
  mipMapTextures :: u8
  clutType :: u8
  imageType :: u8
  imageWidth :: u16
  imageHeight :: u16
  gsTex0 :: u64
  gsTex1 :: u64
  gsTexaFbaPabe :: u32
  gsTexClut :: u32

record MipMapHeader =
  gsMiptbp1 :: u64
  gsMiptbp2 :: u64
  sizes :: "u32 list"

text \<open>The fourth field of \<open>ExtendedHeader\<close> is \<open>reserved\<close> in the source.\<close>

record ExtendedHeader =
  exHeaderId :: "u8 list"
  userSpaceSize :: u32
  userDataSize :: u32
  exReserved :: u32

record Color32 =
  r :: u8
  g :: u8
  b :: u8
  a :: u8

text \<open>\<open>Color32()\<close>: the default constructor, which \<open>Color32 c{}\<close> runs.\<close>

definition Color32_default :: Color32 where
  "Color32_default = \<lparr>r = 0, g = 0, b = 0, a = 255\<rparr>"

text \<open>
  \<open>Color16::toColor32\<close>. The 16-bit value is promoted to a 32-bit \<open>int\<close> before
  the masks and shifts, and each channel is cut to 8 bits by the cast.
\<close>

definition toColor32 :: "u16 \<Rightarrow> Color32" where
  "toColor32 val =
     (let v = (ucast val :: u32) in
      \<lparr>r = ucast (push_bit 3 (v AND 0x001F) OR drop_bit 2 (v AND 0x001F)),
       g = ucast (drop_bit 2 (v AND 0x03E0) OR drop_bit 7 (v AND 0x03E0)),
       b = ucast (drop_bit 7 (v AND 0x7C00) OR drop_bit 12 (v AND 0x7C00)),
       a = (if v AND 0x8000 \<noteq> 0 then 255 else 0)\<rparr>)"

definition getImagePixelFormat :: "PictureHeader \<Rightarrow> PixelFormat" where
  "getImagePixelFormat h = imageType h"

definition getClutPixelFormat :: "PictureHeader \<Rightarrow> PixelFormat" where
  "getClutPixelFormat h = clutType h AND 0x3F"

definition isClutCSM2 :: "PictureHeader \<Rightarrow> bool" where
  "isClutCSM2 h = (clutType h AND 0x80 \<noteq> 0)"

definition isClutCompound :: "PictureHeader \<Rightarrow> bool" where
  "isClutCompound h = (clutType h AND 0x40 \<noteq> 0)"

definition hasClut :: "PictureHeader \<Rightarrow> bool" where
  "hasClut h = (clutSize h > 0 \<and> getClutPixelFormat h \<noteq> TIM2_NONE)"

definition hasMipMaps :: "PictureHeader \<Rightarrow> bool" where
  "hasMipMaps h = (mipMapTextures h > 1)"

section \<open>Pictures and the pixel decoder (tim2\_parser.cpp, class Picture)\<close>

record Picture =
  header :: PictureHeader
  mipMapHeader :: "MipMapHeader option"
  userData :: "u8 list"
  imageData :: "u8 list"
  clutData :: "u8 list"
  extHeader :: "ExtendedHeader option"
  comment :: "u8 list"

text \<open>
  The decoder indexes raw byte buffers without any bounds check. A read outside the
  buffer is undefined behaviour in the source; the model makes it the value \<open>None\<close>,
  and every decoding function returns an option, \<open>None\<close> meaning that the source has
  left defined behaviour.
\<close>

definition rd :: "u8 list \<Rightarrow> nat \<Rightarrow> u8 option" where
  "rd mem i = (if i < length mem then Some (mem ! i) else None)"

text \<open>\<open>*reinterpret_cast<const uint16_t*>(&data[i])\<close> on a little-endian host.\<close>

definition rd16 :: "u8 list \<Rightarrow> nat \<Rightarrow> u16 option" where
  "rd16 mem i = do {
     lo \<leftarrow> rd mem i;
     hi \<leftarrow> rd mem (i + 1);
     Some (ucast lo OR push_bit 8 (ucast hi))
   }"

text \<open>
  The index computed at the top of the loop body of \<open>getClutColors\<close>: the CSM1
  compound reordering inside 32-colour blocks.
\<close>

definition clutIndex :: "PictureHeader \<Rightarrow> nat \<Rightarrow> nat" where
  "clutIndex h i =
     (if \<not> isClutCSM2 h \<and> isClutCompound h then
        (let block = i div 32;
             localIdx = i mod 32;
             localIdx' = (if localIdx \<ge> 8 \<and> localIdx < 16 then localIdx + 8
                          else if localIdx \<ge> 16 \<and> localIdx < 24 then localIdx - 8
                          else localIdx)
         in block * 32 + localIdx')
      else i)"

text \<open>The \<open>switch (fmt)\<close> of the loop body: the colour stored at a raw entry index.\<close>

definition clutEntry :: "PixelFormat \<Rightarrow> u8 list \<Rightarrow> nat \<Rightarrow> Color32 option" where
  "clutEntry fmt mem index =
     (if fmt = TIM2_RGB16 then do {
        val \<leftarrow> rd16 mem (index * 2);
        Some (toColor32 val)
      }
      else if fmt = TIM2_RGB24 then do {
        cr \<leftarrow> rd mem (index * 3 + 0);
        cg \<leftarrow> rd mem (index * 3 + 1);
        cb \<leftarrow> rd mem (index * 3 + 2);
        Some \<lparr>r = cr, g = cg, b = cb, a = 255\<rparr>
      }
      else if fmt = TIM2_RGB32 then do {
        cr \<leftarrow> rd mem (index * 4 + 0);
        cg \<leftarrow> rd mem (index * 4 + 1);
        cb \<leftarrow> rd mem (index * 4 + 2);
        ca \<leftarrow> rd mem (index * 4 + 3);
        Some \<lparr>r = cr, g = cg, b = cb, a = ca\<rparr>
      }
      else Some Color32_default)"

text \<open>The loop \<open>for (i = 0; i < clutColors; ++i)\<close> with its \<open>push_back\<close>.\<close>

primrec clutLoop :: "Picture \<Rightarrow> nat list \<Rightarrow> Color32 list \<Rightarrow> Color32 list option" where
  "clutLoop p [] colors = Some colors"
| "clutLoop p (i # rest) colors =
     (case clutEntry (getClutPixelFormat (header p)) (clutData p) (clutIndex (header p) i) of
        None \<Rightarrow> None
      | Some color \<Rightarrow> clutLoop p rest (colors @ [color]))"

definition getClutColors :: "Picture \<Rightarrow> Color32 list option" where
  "getClutColors p =
     (if \<not> hasClut (header p) then Some []
      else clutLoop p [0 ..< unat (clutColors (header p))] [])"

text \<open>
  \<open>getImageOffset\<close>: the loop adds \<open>sizes[i]\<close> for \<open>i < mipLevel\<close> and
  \<open>i < sizes.size()\<close>.
\<close>

definition getImageOffset :: "Picture \<Rightarrow> nat \<Rightarrow> nat" where
  "getImageOffset p mipLevel =
     (case mipMapHeader p of
        None \<Rightarrow> 0
      | Some mh \<Rightarrow>
          if mipLevel = 0 then 0
          else fold (\<lambda>i offset. offset + unat (sizes mh ! i))
                 [0 ..< min mipLevel (length (sizes mh))] 0)"

text \<open>
  \<open>std::max<size_t>(1, header.imageWidth >> level)\<close>. The 16-bit field is promoted
  to a 32-bit \<open>int\<close>, so the shift is defined only for \<open>level < 32\<close>.
\<close>

definition mipDimension :: "u16 \<Rightarrow> nat \<Rightarrow> nat option" where
  "mipDimension d level =
     (if level < 32 then Some (max 1 (drop_bit level (unat d))) else None)"

definition getMipMapWidth :: "Picture \<Rightarrow> nat \<Rightarrow> nat option" where
  "getMipMapWidth p level = mipDimension (imageWidth (header p)) level"

definition getMipMapHeight :: "Picture \<Rightarrow> nat \<Rightarrow> nat option" where
  "getMipMapHeight p level = mipDimension (imageHeight (header p)) level"

text \<open>The nibble selection of the IDTEX4 branch.\<close>

definition idtex4Index :: "u8 \<Rightarrow> nat \<Rightarrow> u8" where
  "idtex4Index packed pixelIdx =
     (if pixelIdx AND 1 \<noteq> 0 then drop_bit 4 packed else packed AND 0x0F)"

text \<open>The palette lookup shared by both indexed branches.\<close>

definition lookupColor :: "Picture \<Rightarrow> u8 \<Rightarrow> Color32 option" where
  "lookupColor p colorIdx = do {
     colors \<leftarrow> getClutColors p;
     Some (if unat colorIdx < length colors then colors ! unat colorIdx else Color32_default)
   }"

definition getPixelColor :: "Picture \<Rightarrow> nat \<Rightarrow> nat \<Rightarrow> nat \<Rightarrow> Color32 option" where
  "getPixelColor p x y mipLevel = do {
     let offset = getImageOffset p mipLevel;
     width \<leftarrow> getMipMapWidth p mipLevel;
     let mem = imageData p;
     let fmt = getImagePixelFormat (header p);
     if fmt = TIM2_RGB32 then do {
       let idx = (y * width + x) * 4;
       cr \<leftarrow> rd mem (offset + idx + 0);
       cg \<leftarrow> rd mem (offset + idx + 1);
       cb \<leftarrow> rd mem (offset + idx + 2);
       ca \<leftarrow> rd mem (offset + idx + 3);
       Some \<lparr>r = cr, g = cg, b = cb, a = ca\<rparr>
     }
     else if fmt = TIM2_RGB24 then do {
       let idx = (y * width + x) * 3;
       cr \<leftarrow> rd mem (offset + idx + 0);
       cg \<leftarrow> rd mem (offset + idx + 1);
       cb \<leftarrow> rd mem (offset + idx + 2);
       Some \<lparr>r = cr, g = cg, b = cb, a = 255\<rparr>
     }
     else if fmt = TIM2_RGB16 then do {
       let idx = (y * width + x) * 2;
       val \<leftarrow> rd16 mem (offset + idx);
       Some (toColor32 val)
     }
     else if fmt = TIM2_IDTEX8 then
       (if hasClut (header p) then do {
          let idx = y * width + x;
          colorIdx \<leftarrow> rd mem (offset + idx);
          lookupColor p colorIdx
        }
        else Some Color32_default)
     else if fmt = TIM2_IDTEX4 then
       (if hasClut (header p) then do {
          let pixelIdx = y * width + x;
          let byteIdx = pixelIdx div 2;
          packed \<leftarrow> rd mem (offset + byteIdx);
          lookupColor p (idtex4Index packed pixelIdx)
        }
        else Some Color32_default)
     else Some Color32_default
   }"

text \<open>
  \<open>decodeImage\<close>: the result vector is created with \<open>width * height\<close> default
  colours and each cell is overwritten by the two nested loops.
\<close>

definition storePixel ::
  "Picture \<Rightarrow> nat \<Rightarrow> nat \<Rightarrow> nat \<Rightarrow> nat \<Rightarrow> Color32 list option \<Rightarrow> Color32 list option" where
  "storePixel p mipLevel width y x acc = do {
     result \<leftarrow> acc;
     color \<leftarrow> getPixelColor p x y mipLevel;
     Some (result[y * width + x := color])
   }"

definition decodeImage :: "Picture \<Rightarrow> nat \<Rightarrow> Color32 list option" where
  "decodeImage p mipLevel =
     (if mipLevel \<ge> unat (mipMapTextures (header p)) then Some []
      else do {
        width \<leftarrow> getMipMapWidth p mipLevel;
        height \<leftarrow> getMipMapHeight p mipLevel;
        fold (\<lambda>y. fold (storePixel p mipLevel width y) [0 ..< width]) [0 ..< height]
          (Some (replicate (width * height) Color32_default))
      })"

section \<open>The input stream\<close>

text \<open>
  \<open>std::ifstream\<close> opened in binary mode on a regular file: the file contents, the
  get position and the two state bits the parser can observe (\<open>badbit\<close> is never set
  on this path). A read that cannot deliver all requested bytes delivers what is left
  and sets \<open>eofbit\<close> and \<open>failbit\<close>; every operation on a stream that is not good
  does nothing but set \<open>failbit\<close>; seeking first clears \<open>eofbit\<close>, and seeking past
  the end of a regular file succeeds.
\<close>

record ifstream =
  bytes :: "u8 list"
  pos :: nat
  failbit :: bool
  eofbit :: bool

definition open_stream :: "u8 list \<Rightarrow> ifstream" where
  "open_stream contents = \<lparr>bytes = contents, pos = 0, failbit = False, eofbit = False\<rparr>"

definition good :: "ifstream \<Rightarrow> bool" where
  "good file = (\<not> failbit file \<and> \<not> eofbit file)"

definition stream_read :: "nat \<Rightarrow> ifstream \<Rightarrow> u8 list \<times> ifstream" where
  "stream_read n file =
     (if \<not> good file then ([], file\<lparr>failbit := True\<rparr>)
      else
        (let got = take n (drop (pos file) (bytes file)) in
         if length got = n then (got, file\<lparr>pos := pos file + n\<rparr>)
         else (got, file\<lparr>pos := pos file + length got, failbit := True, eofbit := True\<rparr>)))"

text \<open>\<open>static_cast<size_t>(file.tellg())\<close>: the position, or \<open>size_t(-1)\<close> after a failure.\<close>

definition tellg :: "ifstream \<Rightarrow> nat" where
  "tellg file = (if failbit file then 2 ^ 64 - 1 else pos file)"

definition seekg :: "nat \<Rightarrow> ifstream \<Rightarrow> ifstream" where
  "seekg target file =
     (let file' = file\<lparr>eofbit := False\<rparr> in
      if failbit file' then file' else file'\<lparr>pos := target\<rparr>)"

definition seekg_cur :: "nat \<Rightarrow> ifstream \<Rightarrow> ifstream" where
  "seekg_cur off file =
     (let file' = file\<lparr>eofbit := False\<rparr> in
      if failbit file' then file' else file'\<lparr>pos := pos file' + off\<rparr>)"

section \<open>Reading packed structs from bytes\<close>

text \<open>A little-endian integer field of any width.\<close>

primrec le_word :: "u8 list \<Rightarrow> 'a::len word" where
  "le_word [] = 0"
| "le_word (x # xs) = ucast x OR push_bit 8 (le_word xs)"

definition field :: "nat \<Rightarrow> nat \<Rightarrow> u8 list \<Rightarrow> u8 list" where
  "field off n raw = take n (drop off raw)"

primrec le_bytes :: "nat \<Rightarrow> nat \<Rightarrow> u8 list" where
  "le_bytes 0 v = []"
| "le_bytes (Suc n) v = word_of_nat (v mod 256) # le_bytes n (v div 256)"

definition FileHeader_of_bytes :: "u8 list \<Rightarrow> FileHeader" where
  "FileHeader_of_bytes raw =
     \<lparr>fileId = field 0 4 raw,
      formatVersion = le_word (field 4 1 raw),
      formatId = le_word (field 5 1 raw),
      pictures = le_word (field 6 2 raw),
      reserved = field 8 8 raw\<rparr>"

definition FileHeader_bytes :: "FileHeader \<Rightarrow> u8 list" where
  "FileHeader_bytes h =
     fileId h @ [formatVersion h, formatId h] @ le_bytes 2 (unat (pictures h)) @ reserved h"

definition PictureHeader_of_bytes :: "u8 list \<Rightarrow> PictureHeader" where
  "PictureHeader_of_bytes raw =
     \<lparr>totalSize = le_word (field 0 4 raw),
      clutSize = le_word (field 4 4 raw),
      imageSize = le_word (field 8 4 raw),
      headerSize = le_word (field 12 2 raw),
      clutColors = le_word (field 14 2 raw),
      pictFormat = le_word (field 16 1 raw),
      mipMapTextures = le_word (field 17 1 raw),
      clutType = le_word (field 18 1 raw),
      imageType = le_word (field 19 1 raw),
      imageWidth = le_word (field 20 2 raw),
      imageHeight = le_word (field 22 2 raw),
      gsTex0 = le_word (field 24 8 raw),
      gsTex1 = le_word (field 32 8 raw),
      gsTexaFbaPabe = le_word (field 40 4 raw),
      gsTexClut = le_word (field 44 4 raw)\<rparr>"

definition ExtendedHeader_of_bytes :: "u8 list \<Rightarrow> ExtendedHeader" where
  "ExtendedHeader_of_bytes raw =
     \<lparr>exHeaderId = field 0 4 raw,
      userSpaceSize = le_word (field 4 4 raw),
      userDataSize = le_word (field 8 4 raw),
      exReserved = le_word (field 12 4 raw)\<rparr>"

text \<open>\<open>FileHeader::isValid\<close>: \<open>memcmp(fileId, "TIM2", 4) == 0\<close>.\<close>

definition FileHeader_isValid :: "FileHeader \<Rightarrow> bool" where
  "FileHeader_isValid h = (fileId h = [0x54, 0x49, 0x4D, 0x32])"

definition getAlignment :: "FileHeader \<Rightarrow> nat" where
  "getAlignment h = (if formatId h = TIM2_ALIGN_128 then 128 else 16)"

text \<open>\<open>ExtendedHeader::isValid\<close>: \<open>memcmp(exHeaderId, "eXt\0", 4) == 0\<close>.\<close>

definition ExtendedHeader_isValid :: "ExtendedHeader \<Rightarrow> bool" where
  "ExtendedHeader_isValid h = (exHeaderId h = [0x65, 0x58, 0x74, 0x00])"

section \<open>The parser (tim2\_parser.cpp, class TIM2Parser)\<close>

record TIM2Parser =
  m_fileHeader :: FileHeader
  m_pictures :: "Picture list"
  m_valid :: bool
  m_lastError :: string

definition alignOffset :: "nat \<Rightarrow> nat \<Rightarrow> nat" where
  "alignOffset offset alignment = ((offset + alignment - 1) div alignment) * alignment"

text \<open>
  \<open>skipAlignment\<close>. The two blocks of \<open>parsePicture\<close> that jump to the image and
  CLUT data are the same three statements and use this definition too.
\<close>

definition skipAlignment :: "ifstream \<Rightarrow> nat \<Rightarrow> ifstream" where
  "skipAlignment file alignment =
     (let currentPos = tellg file;
          alignedPos = alignOffset currentPos alignment
      in if alignedPos > currentPos then seekg alignedPos file else file)"

text \<open>
  \<open>parseFileHeader\<close>. The read stores the delivered bytes over the header object, so
  a short read leaves the tail of the previous object in place. The warning about an
  unknown format version goes to the console and changes neither the parser nor the
  result.
\<close>

definition parseFileHeader :: "TIM2Parser \<Rightarrow> ifstream \<Rightarrow> bool \<times> TIM2Parser \<times> ifstream" where
  "parseFileHeader t file =
     (let (got, file') = stream_read 16 file;
          t' = t\<lparr>m_fileHeader :=
                 FileHeader_of_bytes (got @ drop (length got) (FileHeader_bytes (m_fileHeader t)))\<rparr>
      in if failbit file' then (False, t'\<lparr>m_lastError := ''Failed to read file header''\<rparr>, file')
         else if \<not> FileHeader_isValid (m_fileHeader t') then
           (False, t'\<lparr>m_lastError := ''Invalid TIM2 file signature''\<rparr>, file')
         else (True, t', file'))"

text \<open>The loop of \<open>parseMipMapHeader\<close> that reads one 32-bit size per level.\<close>

primrec readSizes :: "nat list \<Rightarrow> u32 list \<Rightarrow> ifstream \<Rightarrow> u32 list \<times> ifstream" where
  "readSizes [] szs file = (szs, file)"
| "readSizes (i # rest) szs file =
     (let (got, file') = stream_read 4 file
      in readSizes rest (szs[i := le_word got]) file')"

text \<open>
  \<open>parseMipMapHeader\<close>. The header object is value-initialised and \<open>resize\<close> fills
  the size array with zeros, so a short read leaves zero in the bytes it did not deliver.
\<close>

definition parseMipMapHeader :: "ifstream \<Rightarrow> Picture \<Rightarrow> bool \<times> Picture \<times> ifstream" where
  "parseMipMapHeader file pic =
     (let (got1, file1) = stream_read 8 file;
          (got2, file2) = stream_read 8 file1;
          levels = unat (mipMapTextures (header pic));
          (szs, file3) = readSizes [0 ..< levels] (replicate levels 0) file2;
          mipHeaderSize = 16 + levels * 4;
          paddedSize = alignOffset mipHeaderSize 16;
          file4 = (if paddedSize > mipHeaderSize
                   then seekg_cur (paddedSize - mipHeaderSize) file3 else file3)
      in (good file4,
          pic\<lparr>mipMapHeader :=
                Some \<lparr>gsMiptbp1 = le_word got1, gsMiptbp2 = le_word got2, sizes = szs\<rparr>\<rparr>,
          file4))"

text \<open>
  The header size computation that \<open>parsePicture\<close> and \<open>parseUserSpace\<close> both
  carry out: the picture header plus the padded mipmap header when there is one.
\<close>

definition headerDataSize :: "Picture \<Rightarrow> nat" where
  "headerDataSize pic =
     (case mipMapHeader pic of
        None \<Rightarrow> 48
      | Some mh \<Rightarrow> 48 + alignOffset (16 + unat (mipMapTextures (header pic)) * 4) 16)"

text \<open>A buffer resized to \<open>n\<close> zero bytes and then overwritten by what a read delivered.\<close>

definition filled :: "nat \<Rightarrow> u8 list \<Rightarrow> u8 list" where
  "filled n got = got @ replicate (n - length got) 0"

definition parseUserSpace :: "ifstream \<Rightarrow> Picture \<Rightarrow> bool \<times> Picture \<times> ifstream" where
  "parseUserSpace file pic =
     (let userSpaceSize = unat (headerSize (header pic)) - headerDataSize pic in
      if userSpaceSize = 0 then (True, pic, file)
      else
        (let (got, file') = stream_read userSpaceSize file;
             pic1 = pic\<lparr>userData := filled userSpaceSize got\<rparr>;
             extHdr = ExtendedHeader_of_bytes (take 16 (userData pic1));
             pic2 =
               (if userSpaceSize \<ge> 16 \<and> ExtendedHeader_isValid extHdr then
                  (let commentOffset = 16 + unat (userDataSize extHdr);
                       endLimit = min userSpaceSize (unat (ExtendedHeader.userSpaceSize extHdr));
                       pic' = pic1\<lparr>extHeader := Some extHdr\<rparr>
                   in if commentOffset < endLimit then
                        pic'\<lparr>comment :=
                               takeWhile (\<lambda>c. c \<noteq> 0)
                                 (take (endLimit - commentOffset)
                                    (drop commentOffset (userData pic1)))\<rparr>
                      else pic')
                else pic1)
         in (good file', pic2, file')))"

definition parseImageData :: "ifstream \<Rightarrow> Picture \<Rightarrow> bool \<times> Picture \<times> ifstream" where
  "parseImageData file pic =
     (let n = unat (imageSize (header pic));
          (got, file') = stream_read n file
      in (good file', pic\<lparr>imageData := filled n got\<rparr>, file'))"

definition parseClutData :: "ifstream \<Rightarrow> Picture \<Rightarrow> bool \<times> Picture \<times> ifstream" where
  "parseClutData file pic =
     (let n = unat (clutSize (header pic));
          (got, file') = stream_read n file
      in (good file', pic\<lparr>clutData := filled n got\<rparr>, file'))"

text \<open>
  \<open>parsePicture\<close>. The picture is a local of the caller's loop that is dropped when
  the function returns false, so the result is \<open>None\<close> there.
\<close>

definition parsePicture ::
  "TIM2Parser \<Rightarrow> ifstream \<Rightarrow> nat \<Rightarrow> Picture option \<times> TIM2Parser \<times> ifstream" where
  "parsePicture t file alignment =
     (let (got, file1) = stream_read 48 file in
      if failbit file1 then (None, t\<lparr>m_lastError := ''Failed to read picture header''\<rparr>, file1)
      else
        (let pic0 = \<lparr>header = PictureHeader_of_bytes got, mipMapHeader = None, userData = [],
                     imageData = [], clutData = [], extHeader = None, comment = []\<rparr>;
             (ok1, pic1, file2) =
               (if mipMapTextures (header pic0) > 1 then parseMipMapHeader file1 pic0
                else (True, pic0, file1))
         in if \<not> ok1 then (None, t, file2)
            else
              (let (ok2, pic2, file3) =
                     (if unat (headerSize (header pic1)) > headerDataSize pic1
                      then parseUserSpace file2 pic1 else (True, pic1, file2))
               in if \<not> ok2 then (None, t, file3)
                  else
                    (let file4 = skipAlignment file3 alignment;
                         (ok3, pic3, file5) =
                           (if imageSize (header pic2) > 0 then parseImageData file4 pic2
                            else (True, pic2, file4))
                     in if \<not> ok3 then (None, t, file5)
                        else
                          (let file6 = skipAlignment file5 alignment;
                               (ok4, pic4, file7) =
                                 (if clutSize (header pic3) > 0 then parseClutData file6 pic3
                                  else (True, pic3, file6))
                           in if \<not> ok4 then (None, t, file7)
                              else (Some pic4, t, file7))))))"

text \<open>\<open>std::to_string\<close> on an unsigned value.\<close>

fun to_string :: "nat \<Rightarrow> string" where
  "to_string n =
     (if n < 10 then [char_of (48 + n)]
      else to_string (n div 10) @ [char_of (48 + n mod 10)])"

declare to_string.simps [simp del]

text \<open>The picture loop of \<open>loadFile\<close>.\<close>

primrec pictureLoop ::
  "nat list \<Rightarrow> nat \<Rightarrow> TIM2Parser \<Rightarrow> ifstream \<Rightarrow> bool \<times> TIM2Parser \<times> ifstream" where
  "pictureLoop [] alignment t file = (True, t, file)"
| "pictureLoop (i # rest) alignment t file =
     (case parsePicture t file alignment of
        (None, t', file') \<Rightarrow>
          (False, t'\<lparr>m_lastError := ''Failed to parse picture '' @ to_string i\<rparr>, file')
      | (Some pic, t', file') \<Rightarrow>
          pictureLoop rest alignment (t'\<lparr>m_pictures := m_pictures t' @ [pic]\<rparr>) file')"

text \<open>
  \<open>loadFile\<close>. The file system is the argument \<open>contents\<close>: \<open>None\<close> when the file
  cannot be opened, the bytes of the file otherwise.
\<close>

definition loadFile :: "TIM2Parser \<Rightarrow> string \<Rightarrow> u8 list option \<Rightarrow> bool \<times> TIM2Parser" where
  "loadFile t filename contents =
     (let t0 = t\<lparr>m_valid := False, m_pictures := [], m_lastError := []\<rparr> in
      case contents of
        None \<Rightarrow> (False, t0\<lparr>m_lastError := ''Failed to open file: '' @ filename\<rparr>)
      | Some raw \<Rightarrow>
          (let (ok, t1, file1) = parseFileHeader t0 (open_stream raw) in
           if \<not> ok then (False, t1)
           else
             (let alignment = getAlignment (m_fileHeader t1);
                  file2 = skipAlignment file1 alignment;
                  (ok', t2, file3) =
                    pictureLoop [0 ..< unat (pictures (m_fileHeader t1))] alignment t1 file2
              in if \<not> ok' then (False, t2) else (True, t2\<lparr>m_valid := True\<rparr>))))"

definition isValid :: "TIM2Parser \<Rightarrow> bool" where
  "isValid t = m_valid t"

definition getPictures :: "TIM2Parser \<Rightarrow> Picture list" where
  "getPictures t = m_pictures t"

section \<open>The specification's reading of the format\<close>

text \<open>
  The RGB16 rule in the specification's words: a 5-bit channel taken from the bits
  starting at position \<open>k\<close>, widened to 8 bits by a left shift of 3 with the top three
  bits of the channel repeated in the low bits.
\<close>

definition spec_channel :: "nat \<Rightarrow> u16 \<Rightarrow> u8" where
  "spec_channel k v = ucast (take_bit 5 (drop_bit k v))"

definition spec_expand5 :: "u8 \<Rightarrow> u8" where
  "spec_expand5 c = push_bit 3 c OR drop_bit 2 c"

text \<open>
  The file layout in the specification's words: the cursor walks the sections in
  order, and a section that declares more bytes than remain in the file ends the walk
  with \<open>None\<close>. Padding is skipped, not read: it moves the cursor and declares no
  bytes, so a file may end inside padding.
\<close>

definition spec_alignUp :: "nat \<Rightarrow> nat \<Rightarrow> nat" where
  "spec_alignUp unit c = (if c mod unit = 0 then c else c + (unit - c mod unit))"

definition spec_section :: "u8 list \<Rightarrow> nat \<Rightarrow> nat \<Rightarrow> nat option" where
  "spec_section raw c n = (if n \<le> length raw - c then Some (c + n) else None)"

text \<open>
  A section that exists only under a condition: when present it declares \<open>n\<close> bytes
  at the cursor and moves the cursor by \<open>adv\<close>, the bytes and the padding after them.
\<close>

definition spec_optional :: "bool \<Rightarrow> u8 list \<Rightarrow> nat \<Rightarrow> nat \<Rightarrow> nat \<Rightarrow> nat option" where
  "spec_optional present raw c n adv =
     (if present then do { _ \<leftarrow> spec_section raw c n; Some (c + adv) } else Some c)"

definition spec_picture :: "u8 list \<Rightarrow> nat \<Rightarrow> nat \<Rightarrow> nat option" where
  "spec_picture raw unit c = do {
     c1 \<leftarrow> spec_section raw c 48;
     let h = PictureHeader_of_bytes (field c 48 raw);
     let levels = unat (mipMapTextures h);
     let mipSize = (if levels > 1 then spec_alignUp 16 (16 + 4 * levels) else 0);
     c2 \<leftarrow> spec_optional (levels > 1) raw c1 (16 + 4 * levels) mipSize;
     c3 \<leftarrow> spec_optional (unat (headerSize h) > 48 + mipSize) raw c2
             (unat (headerSize h) - (48 + mipSize)) (unat (headerSize h) - (48 + mipSize));
     c4 \<leftarrow> spec_optional (imageSize h > 0) raw (spec_alignUp unit c3)
             (unat (imageSize h)) (unat (imageSize h));
     spec_optional (clutSize h > 0) raw (spec_alignUp unit c4)
       (unat (clutSize h)) (unat (clutSize h))
   }"

primrec spec_pictures :: "u8 list \<Rightarrow> nat \<Rightarrow> nat \<Rightarrow> nat \<Rightarrow> nat option" where
  "spec_pictures raw unit 0 c = Some c"
| "spec_pictures raw unit (Suc n) c =
     (case spec_picture raw unit c of
        None \<Rightarrow> None
      | Some c' \<Rightarrow> spec_pictures raw unit n c')"

definition spec_truncated :: "u8 list \<Rightarrow> bool" where
  "spec_truncated raw =
     (length raw < 16 \<or>
      (let h = FileHeader_of_bytes (take 16 raw);
           unit = (if formatId h = 1 then 128 else 16)
       in spec_pictures raw unit (unat (pictures h)) (spec_alignUp unit 16) = None))"

section \<open>Conditions under which the decoder stays inside its buffers\<close>

text \<open>The number of bytes one entry of a CLUT of format \<open>fmt\<close> occupies.\<close>

definition clutEntrySize :: "PixelFormat \<Rightarrow> nat" where
  "clutEntrySize fmt =
     (if fmt = TIM2_RGB16 then 2 else if fmt = TIM2_RGB24 then 3
      else if fmt = TIM2_RGB32 then 4 else 0)"

text \<open>Every entry that \<open>getClutColors\<close> reads lies inside the CLUT blob.\<close>

definition clutInBounds :: "Picture \<Rightarrow> bool" where
  "clutInBounds p =
     list_all
       (\<lambda>i. clutIndex (header p) i * clutEntrySize (getClutPixelFormat (header p))
              + clutEntrySize (getClutPixelFormat (header p)) \<le> length (clutData p))
       [0 ..< unat (clutColors (header p))]"



section \<open>Concrete pictures and files\<close>

definition blankHeader :: PictureHeader where
  "blankHeader =
     \<lparr>totalSize = 0, clutSize = 0, imageSize = 0, headerSize = 48, clutColors = 0,
      pictFormat = 0, mipMapTextures = 1, clutType = 0, imageType = 0, imageWidth = 1,
      imageHeight = 1, gsTex0 = 0, gsTex1 = 0, gsTexaFbaPabe = 0, gsTexClut = 0\<rparr>"

definition blankPicture :: Picture where
  "blankPicture =
     \<lparr>header = blankHeader, mipMapHeader = None, userData = [], imageData = [],
      clutData = [], extHeader = None, comment = []\<rparr>"

text \<open>A one-pixel picture whose image format byte 6 is no enumerator.\<close>

definition pic_unknown_format :: Picture where
  "pic_unknown_format =
     blankPicture\<lparr>header := blankHeader\<lparr>imageType := 0x06, imageSize := 4\<rparr>,
                  imageData := [1, 2, 3, 4]\<rparr>"

text \<open>A one-pixel IDTEX8 picture without a CLUT.\<close>

definition pic_idtex8_no_clut :: Picture where
  "pic_idtex8_no_clut =
     blankPicture\<lparr>header := blankHeader\<lparr>imageType := 0x05, imageSize := 1\<rparr>,
                  imageData := [7]\<rparr>"

text \<open>A one-pixel IDTEX8 picture whose pixel is index 5 into a CLUT of two RGB32 colours.\<close>

definition pic_idtex8_small_clut :: Picture where
  "pic_idtex8_small_clut =
     blankPicture\<lparr>header := blankHeader\<lparr>imageType := 0x05, imageSize := 1, clutSize := 8,
                                         clutColors := 2, clutType := 0x03\<rparr>,
                  imageData := [5],
                  clutData := [1, 1, 1, 1, 2, 2, 2, 2]\<rparr>"

text \<open>
  A CSM1 compound palette of 32 RGB32 entries, entry \<open>k\<close> being the sentinel colour
  \<open>(k, 0, 0, 255)\<close>, under a 2x1 IDTEX8 image with the indices 9 and 17.
\<close>

definition pic_compound32 :: Picture where
  "pic_compound32 =
     blankPicture\<lparr>header := blankHeader\<lparr>imageType := 0x05, imageSize := 2, imageWidth := 2,
                                         clutSize := 128, clutColors := 32, clutType := 0x43\<rparr>,
                  imageData := [9, 17],
                  clutData := concat (map (\<lambda>k. [word_of_nat k, 0, 0, 255]) [0 ..< 32])\<rparr>"

text \<open>
  A 2x1 IDTEX4 picture holding the single byte \<open>0xAB\<close> over a plain palette of 16
  RGB32 entries, entry \<open>k\<close> being \<open>(k, k, k, 255)\<close>.
\<close>

definition pic_idtex4 :: Picture where
  "pic_idtex4 =
     blankPicture\<lparr>header := blankHeader\<lparr>imageType := 0x04, imageSize := 1, imageWidth := 2,
                                         clutSize := 64, clutColors := 16, clutType := 0x03\<rparr>,
                  imageData := [0xAB],
                  clutData := concat (map (\<lambda>k. [word_of_nat k, word_of_nat k, word_of_nat k, 255])
                                        [0 ..< 16])\<rparr>"

text \<open>A one-pixel RGB16 picture holding the value \<open>0x83E5\<close>.\<close>

definition pic_rgb16 :: Picture where
  "pic_rgb16 =
     blankPicture\<lparr>header := blankHeader\<lparr>imageType := 0x01, imageSize := 2\<rparr>,
                  imageData := [0xE5, 0x83]\<rparr>"

text \<open>A picture with a 16-byte RGB32 CLUT blob that declares zero colours.\<close>

definition pic_zero_colors :: Picture where
  "pic_zero_colors =
     blankPicture\<lparr>header := blankHeader\<lparr>clutSize := 16, clutColors := 0, clutType := 0x03\<rparr>,
                  clutData := replicate 16 0\<rparr>"

text \<open>A parser object before any load.\<close>

definition parser0 :: TIM2Parser where
  "parser0 =
     \<lparr>m_fileHeader = FileHeader_of_bytes (replicate 16 0), m_pictures = [],
      m_valid = False, m_lastError = []\<rparr>"

text \<open>
  A file of 128 bytes with one 2x2 RGB32 picture of two mip levels: file header,
  picture header, mipmap header with the level sizes 16 and 16 padded to 32 bytes,
  and 32 image bytes.
\<close>

definition file_two_levels :: "u8 list" where
  "file_two_levels =
     [0x54, 0x49, 0x4D, 0x32, 0x04, 0x00, 0x01, 0x00, 0x00, 0x00, 0x00, 0x00, 0x00, 0x00, 0x00, 0x00,
      0x70, 0x00, 0x00, 0x00, 0x00, 0x00, 0x00, 0x00, 0x20, 0x00, 0x00, 0x00, 0x50, 0x00, 0x00, 0x00,
      0x00, 0x02, 0x00, 0x03, 0x02, 0x00, 0x02, 0x00, 0x00, 0x00, 0x00, 0x00, 0x00, 0x00, 0x00, 0x00,
      0x00, 0x00, 0x00, 0x00, 0x00, 0x00, 0x00, 0x00, 0x00, 0x00, 0x00, 0x00, 0x00, 0x00, 0x00, 0x00,
      0x00, 0x00, 0x00, 0x00, 0x00, 0x00, 0x00, 0x00, 0x00, 0x00, 0x00, 0x00, 0x00, 0x00, 0x00, 0x00,
      0x10, 0x00, 0x00, 0x00, 0x10, 0x00, 0x00, 0x00, 0x00, 0x00, 0x00, 0x00, 0x00, 0x00, 0x00, 0x00,
      0x0A, 0x14, 0x1E, 0xFF, 0x28, 0x32, 0x3C, 0x80, 0x01, 0x02, 0x03, 0x04, 0x05, 0x06, 0x07, 0x08,
      0x09, 0x09, 0x09, 0x09, 0x00, 0x00, 0x00, 0x00, 0x00, 0x00, 0x00, 0x00, 0x00, 0x00, 0x00, 0x00]"


text \<open>A complete 16-byte file header with the magic \<open>TIM3\<close>, and its first 8 bytes.\<close>

definition file_tim3 :: "u8 list" where
  "file_tim3 =
     [0x54, 0x49, 0x4D, 0x33, 0x04, 0x00, 0x00, 0x00, 0x00, 0x00, 0x00, 0x00, 0x00, 0x00, 0x00, 0x00]"

definition file_tim3_short :: "u8 list" where
  "file_tim3_short = take 8 file_tim3"

text \<open>
  A file of 88 bytes with one picture of two mip levels and no image bytes, which ends
  right after the two level sizes, inside the padding of the mipmap header.
\<close>

definition file_ends_in_padding :: "u8 list" where
  "file_ends_in_padding =
     [0x54, 0x49, 0x4D, 0x32, 0x04, 0x00, 0x01, 0x00, 0x00, 0x00, 0x00, 0x00, 0x00, 0x00, 0x00, 0x00,
      0x50, 0x00, 0x00, 0x00, 0x00, 0x00, 0x00, 0x00, 0x00, 0x00, 0x00, 0x00, 0x50, 0x00, 0x00, 0x00,
      0x00, 0x02, 0x00, 0x03, 0x02, 0x00, 0x02, 0x00, 0x00, 0x00, 0x00, 0x00, 0x00, 0x00, 0x00, 0x00,
      0x00, 0x00, 0x00, 0x00, 0x00, 0x00, 0x00, 0x00, 0x00, 0x00, 0x00, 0x00, 0x00, 0x00, 0x00, 0x00,
      0x00, 0x00, 0x00, 0x00, 0x00, 0x00, 0x00, 0x00, 0x00, 0x00, 0x00, 0x00, 0x00, 0x00, 0x00, 0x00,
      0x10, 0x00, 0x00, 0x00, 0x10, 0x00, 0x00, 0x00]"

section \<open>Basic facts\<close>

lemmas PixelFormat_defs =
  TIM2_NONE_def TIM2_RGB16_def TIM2_RGB24_def TIM2_RGB32_def TIM2_IDTEX4_def TIM2_IDTEX8_def

subsection \<open>Buffer reads\<close>

lemma rd_None_iff: "(rd mem i = None) = (length mem \<le> i)"
  by (auto simp: rd_def)

lemma rd_in_bounds: "i < length mem \<Longrightarrow> rd mem i = Some (mem ! i)"
  by (simp add: rd_def)

lemma bind_None_iff:
  "(Option.bind m f = None) = (m = None \<or> (\<exists>v. m = Some v \<and> f v = None))"
  by (cases m) auto

lemma rd16_None_iff: "(rd16 mem i = None) = (length mem \<le> i + 1)"
  by (auto simp: rd16_def rd_def split: bind_splits)

subsection \<open>RGB16 channels\<close>

lemma mask_red: "(x::u32) AND 0x1F = take_bit 5 x"
  by (simp add: take_bit_eq_mask mask_eq_exp_minus_1)

lemma mask_green: "(x::u32) AND 0x3E0 = push_bit 5 (take_bit 5 (drop_bit 5 x))"
proof -
  have e: "(0x3E0 :: u32) = push_bit 5 (mask 5)"
    by (simp add: mask_eq_exp_minus_1)
  show ?thesis
    unfolding e by (rule bit_word_eqI) (auto simp add: bit_simps)
qed

lemma mask_blue: "(x::u32) AND 0x7C00 = push_bit 10 (take_bit 5 (drop_bit 10 x))"
proof -
  have e: "(0x7C00 :: u32) = push_bit 10 (mask 5)"
    by (simp add: mask_eq_exp_minus_1)
  show ?thesis
    unfolding e by (rule bit_word_eqI) (auto simp add: bit_simps)
qed

lemma red_channel:
  "(ucast (push_bit 3 ((ucast (v::u16) :: u32) AND 0x001F)
      OR drop_bit 2 ((ucast v :: u32) AND 0x001F)) :: u8)
   = spec_expand5 (spec_channel 0 v)"
  unfolding spec_expand5_def spec_channel_def mask_red
  by (rule bit_word_eqI) (auto simp add: bit_simps)

lemma green_channel:
  "(ucast (drop_bit 2 ((ucast (v::u16) :: u32) AND 0x03E0)
      OR drop_bit 7 ((ucast v :: u32) AND 0x03E0)) :: u8)
   = spec_expand5 (spec_channel 5 v)"
  unfolding spec_expand5_def spec_channel_def mask_green
  by (rule bit_word_eqI) (auto simp add: bit_simps)

lemma blue_channel:
  "(ucast (drop_bit 7 ((ucast (v::u16) :: u32) AND 0x7C00)
      OR drop_bit 12 ((ucast v :: u32) AND 0x7C00)) :: u8)
   = spec_expand5 (spec_channel 10 v)"
  unfolding spec_expand5_def spec_channel_def mask_blue
  by (rule bit_word_eqI) (auto simp add: bit_simps)

lemma alpha_bit: "((ucast (v::u16) :: u32) AND 0x8000 \<noteq> 0) = bit v 15"
proof -
  have "((ucast v :: u32) AND 0x8000 \<noteq> 0) = bit (ucast v :: u32) 15"
    using bit_iff_and_push_bit_not_eq_0 [of "ucast v :: u32" 15] by simp
  then show ?thesis by (simp add: bit_simps)
qed

lemma toColor32_spec:
  "toColor32 v =
     \<lparr>r = spec_expand5 (spec_channel 0 v), g = spec_expand5 (spec_channel 5 v),
      b = spec_expand5 (spec_channel 10 v), a = (if bit v 15 then 255 else 0)\<rparr>"
  by (simp only: toColor32_def Let_def red_channel green_channel blue_channel alpha_bit)

lemma rd16_little_endian:
  "rd16 mem i = (if i + 1 < length mem
                 then Some (word_of_nat (unat (mem ! i) + 256 * unat (mem ! (i + 1))))
                 else None)"
proof (cases "i + 1 < length mem")
  case True
  have "(ucast (x::u8) OR push_bit 8 (ucast (y::u8)) :: u16) = word_of_nat (unat x + 256 * unat y)"
    for x y
  proof -
    have "(ucast x OR push_bit 8 (ucast y) :: u16) = ucast x + push_bit 8 (ucast y)"
      by (rule disjunctive_add_eq_or [symmetric])
         (rule bit_word_eqI, auto simp add: bit_simps dest: bit_imp_le_length)
    also have "\<dots> = word_of_nat (unat x + 256 * unat y)"
      by (simp add: push_bit_eq_mult)
    finally show ?thesis .
  qed
  with True show ?thesis by (simp add: rd16_def rd_def)
next
  case False
  then show ?thesis using rd16_None_iff [of mem i] by simp
qed

subsection \<open>The CLUT\<close>

lemma clutEntry_RGB16: "clutEntry TIM2_RGB16 mem index = map_option toColor32 (rd16 mem (index * 2))"
  by (cases "rd16 mem (index * 2)") (simp_all add: clutEntry_def)

lemma clutEntry_None_iff:
  "(clutEntry fmt mem index = None) =
     (\<not> index * clutEntrySize fmt + clutEntrySize fmt \<le> length mem)"
proof -
  consider "fmt = TIM2_RGB16" | "fmt = TIM2_RGB24" | "fmt = TIM2_RGB32"
    | "fmt \<noteq> TIM2_RGB16" "fmt \<noteq> TIM2_RGB24" "fmt \<noteq> TIM2_RGB32"
    by blast
  then show ?thesis
  proof cases
    case 1
    then show ?thesis
      by (simp add: clutEntry_def clutEntrySize_def bind_None_iff rd16_None_iff) arith
  next
    case 2
    then show ?thesis
      by (simp add: clutEntry_def clutEntrySize_def PixelFormat_defs bind_None_iff rd_def)
  next
    case 3
    then show ?thesis
      by (simp add: clutEntry_def clutEntrySize_def PixelFormat_defs bind_None_iff rd_def)
  next
    case 4
    then show ?thesis
      by (simp add: clutEntry_def clutEntrySize_def)
  qed
qed

lemma clutLoop_Some_iff:
  "(clutLoop p xs acc = Some cs) =
     ((\<forall>i \<in> set xs. clutEntry (getClutPixelFormat (header p)) (clutData p)
                        (clutIndex (header p) i) \<noteq> None)
      \<and> cs = acc @ map (\<lambda>i. the (clutEntry (getClutPixelFormat (header p)) (clutData p)
                                    (clutIndex (header p) i))) xs)"
proof (induction xs arbitrary: acc)
  case Nil
  show ?case by auto
next
  case (Cons x xs)
  show ?case
    by (cases "clutEntry (getClutPixelFormat (header p)) (clutData p) (clutIndex (header p) x)")
       (auto simp: Cons.IH)
qed

lemma getClutColors_Some_iff:
  "(getClutColors p = Some cs) =
     (if \<not> hasClut (header p) then cs = []
      else clutInBounds p \<and>
           cs = map (\<lambda>i. the (clutEntry (getClutPixelFormat (header p)) (clutData p)
                                 (clutIndex (header p) i)))
                  [0 ..< unat (clutColors (header p))])"
  by (auto simp: getClutColors_def clutLoop_Some_iff clutInBounds_def clutEntry_None_iff
        list_all_iff)

lemma getClutColors_None_iff:
  "(getClutColors p = None) = (hasClut (header p) \<and> \<not> clutInBounds p)"
proof -
  have "(getClutColors p = None) = (\<forall>cs. getClutColors p \<noteq> Some cs)"
    by (cases "getClutColors p") auto
  then show ?thesis
    by (cases "hasClut (header p)") (simp_all add: getClutColors_Some_iff)
qed

lemma getClutColors_nth:
  assumes "getClutColors p = Some cs" and "i < length cs"
  shows "clutEntry (getClutPixelFormat (header p)) (clutData p) (clutIndex (header p) i)
           = Some (cs ! i)"
proof -
  have h: "hasClut (header p)"
    using assms by (auto simp: getClutColors_Some_iff split: if_splits)
  with assms have b: "clutInBounds p" and n: "i < unat (clutColors (header p))"
    by (auto simp: getClutColors_Some_iff)
  from b n have "clutEntry (getClutPixelFormat (header p)) (clutData p) (clutIndex (header p) i)
                   \<noteq> None"
    by (simp add: clutInBounds_def clutEntry_None_iff list_all_iff)
  with assms h n show ?thesis
    by (auto simp: getClutColors_Some_iff)
qed

lemma clutIndex_block: "clutIndex h i div 32 = i div 32"
  by (auto simp: clutIndex_def Let_def)

lemma clutIndex_compound:
  assumes "\<not> isClutCSM2 h" and "isClutCompound h"
  shows "clutIndex h i =
           (if 8 \<le> i mod 32 \<and> i mod 32 < 16 then i + 8
            else if 16 \<le> i mod 32 \<and> i mod 32 < 24 then i - 8 else i)"
proof -
  have split: "i div 32 * 32 + i mod 32 = i" by simp
  have le: "i mod 32 \<le> i" by simp
  show ?thesis
    using assms split le unfolding clutIndex_def Let_def
    by (auto simp del: div_mult_mod_eq mod_less_eq_dividend)
qed

lemma clutIndex_plain: "isClutCSM2 h \<or> \<not> isClutCompound h \<Longrightarrow> clutIndex h i = i"
  by (auto simp: clutIndex_def)

lemma clutIndex_invol: "clutIndex h (clutIndex h i) = i"
proof (cases "\<not> isClutCSM2 h \<and> isClutCompound h")
  case True
  define f :: "nat \<Rightarrow> nat" where
    "f = (\<lambda>m. if m \<ge> 8 \<and> m < 16 then m + 8 else if m \<ge> 16 \<and> m < 24 then m - 8 else m)"
  have c: "clutIndex h j = j div 32 * 32 + f (j mod 32)" for j
    using True by (simp add: clutIndex_def Let_def f_def)
  have fb: "f m < 32" if "m < 32" for m
    using that by (auto simp add: f_def)
  have ff: "f (f m) = m" for m
    unfolding f_def by (auto split: if_splits)
  have "clutIndex h (clutIndex h i) = i div 32 * 32 + f (f (i mod 32))"
    using fb [of "i mod 32"] by (simp add: c)
  then show ?thesis by (simp add: ff)
next
  case False
  then show ?thesis by (simp add: clutIndex_plain)
qed

lemma clutIndex_bij:
  "bij_betw (clutIndex h) {k * 32 ..< k * 32 + 32} {k * 32 ..< k * 32 + 32}"
proof -
  have inside: "clutIndex h i \<in> {k * 32 ..< k * 32 + 32}"
    if "i \<in> {k * 32 ..< k * 32 + 32}" for i
  proof -
    from that have "i div 32 = k" by auto
    then have "clutIndex h i div 32 = k" by (simp add: clutIndex_block)
    then show ?thesis by auto
  qed
  then have sub: "clutIndex h ` {k * 32 ..< k * 32 + 32} \<subseteq> {k * 32 ..< k * 32 + 32}"
    by blast
  have inv: "\<forall>i\<in>{k * 32 ..< k * 32 + 32}. clutIndex h (clutIndex h i) = i"
    by (simp add: clutIndex_invol)
  show ?thesis
    by (rule bij_betw_byWitness [where f' = "clutIndex h"]) (rule inv inv sub sub)+
qed

text \<open>
  C4. In a CSM1 compound palette the entry index is remapped inside its 32-entry block:
  positions 8..15 move up by 8, positions 16..23 move down by 8, every other position
  stays; the remap is its own inverse and a permutation of each block. Outside CSM1
  compound the index is unchanged. Entry \<open>i\<close> of the decoded palette is the colour
  stored at the remapped raw index.
\<close>

theorem clut_compound_remap:
  "(\<not> isClutCSM2 (header p) \<and> isClutCompound (header p) \<longrightarrow>
      (8 \<le> i mod 32 \<and> i mod 32 < 16 \<longrightarrow> clutIndex (header p) i = i + 8) \<and>
      (16 \<le> i mod 32 \<and> i mod 32 < 24 \<longrightarrow> clutIndex (header p) i = i - 8) \<and>
      (i mod 32 < 8 \<or> 24 \<le> i mod 32 \<longrightarrow> clutIndex (header p) i = i)) \<and>
   (isClutCSM2 (header p) \<or> \<not> isClutCompound (header p) \<longrightarrow> clutIndex (header p) i = i) \<and>
   clutIndex (header p) (clutIndex (header p) i) = i \<and>
   bij_betw (clutIndex (header p)) {k * 32 ..< k * 32 + 32} {k * 32 ..< k * 32 + 32} \<and>
   (\<forall>cs. getClutColors p = Some cs \<and> i < length cs \<longrightarrow>
      clutEntry (getClutPixelFormat (header p)) (clutData p) (clutIndex (header p) i)
        = Some (cs ! i))"
  using clutIndex_compound [of "header p" i] clutIndex_plain [of "header p" i]
    clutIndex_invol [of "header p" i] clutIndex_bij [of "header p" k] getClutColors_nth [of p _ i]
  by auto

theorem clut_compound_remap_witness:
  "\<not> isClutCSM2 (header pic_compound32) \<and> isClutCompound (header pic_compound32) \<and>
   clutIndex (header pic_compound32) 9 = 17 \<and>
   clutIndex (header pic_compound32) (clutIndex (header pic_compound32) 9) = 9 \<and>
   map_option length (getClutColors pic_compound32) = Some 32 \<and>
   map_option (\<lambda>cs. cs ! 9) (getClutColors pic_compound32)
     = Some \<lparr>r = 17, g = 0, b = 0, a = 255\<rparr> \<and>
   map_option (\<lambda>cs. cs ! 17) (getClutColors pic_compound32)
     = Some \<lparr>r = 9, g = 0, b = 0, a = 255\<rparr> \<and>
   clutEntry (getClutPixelFormat (header pic_compound32)) (clutData pic_compound32)
     (clutIndex (header pic_compound32) 9)
     = map_option (\<lambda>cs. cs ! 9) (getClutColors pic_compound32)"
proof -
  define cs where
    "cs = map (\<lambda>k. \<lparr>r = word_of_nat (clutIndex (header pic_compound32) k), g = 0,
                       b = 0, a = 255\<rparr>) [0 ..< 32]"
  have f: "\<not> isClutCSM2 (header pic_compound32) \<and> isClutCompound (header pic_compound32)"
    by code_simp
  have g: "getClutColors pic_compound32 = Some cs"
    unfolding cs_def by code_simp
  have len: "length cs = 32"
    by (simp add: cs_def)
  note t = clut_compound_remap [of pic_compound32 9 0]
  from t f have i9: "clutIndex (header pic_compound32) 9 = 17"
    by simp
  from t have inv: "clutIndex (header pic_compound32) (clutIndex (header pic_compound32) 9) = 9"
    by blast
  from t g len
  have e: "clutEntry (getClutPixelFormat (header pic_compound32)) (clutData pic_compound32)
             (clutIndex (header pic_compound32) 9) = Some (cs ! 9)"
    by simp
  have c9: "cs ! 9 = \<lparr>r = 17, g = 0, b = 0, a = 255\<rparr>"
    by (simp add: cs_def i9)
  have "clutIndex (header pic_compound32) 17 = 9"
    using inv by (simp add: i9)
  then have c17: "cs ! 17 = \<lparr>r = 9, g = 0, b = 0, a = 255\<rparr>"
    by (simp add: cs_def)
  from f i9 inv len c9 c17 e show ?thesis
    by (simp add: g)
qed

subsection \<open>Single pixels\<close>

lemma mipDimension_Some:
  "level < 32 \<Longrightarrow> mipDimension d level = Some (max 1 (drop_bit level (unat d)))"
  by (simp add: mipDimension_def)

lemma getPixelColor_RGB16:
  assumes "getImagePixelFormat (header p) = TIM2_RGB16"
    and "getMipMapWidth p mipLevel = Some width"
  shows "getPixelColor p x y mipLevel =
           map_option toColor32
             (rd16 (imageData p) (getImageOffset p mipLevel + (y * width + x) * 2))"
  using assms
  by (cases "rd16 (imageData p) (getImageOffset p mipLevel + (y * width + x) * 2)")
     (simp_all add: getPixelColor_def PixelFormat_defs Let_def)

lemma getPixelColor_IDTEX4:
  assumes "getImagePixelFormat (header p) = TIM2_IDTEX4"
    and "hasClut (header p)"
    and "getMipMapWidth p mipLevel = Some width"
  shows "getPixelColor p x y mipLevel =
           Option.bind (rd (imageData p) (getImageOffset p mipLevel + (y * width + x) div 2))
             (\<lambda>packed. lookupColor p (idtex4Index packed (y * width + x)))"
  using assms
  by (simp add: getPixelColor_def PixelFormat_defs Let_def)

lemma getPixelColor_unknown:
  assumes "getImagePixelFormat (header p) \<notin>
             {TIM2_RGB16, TIM2_RGB24, TIM2_RGB32, TIM2_IDTEX4, TIM2_IDTEX8}"
    and "mipLevel < 32"
  shows "getPixelColor p x y mipLevel = Some Color32_default"
  using assms
  by (simp add: getPixelColor_def getMipMapWidth_def mipDimension_def Let_def)

lemma nat_and_one: "((n::nat) AND 1 \<noteq> 0) = odd n"
proof -
  have "n mod 2 = 0 \<or> n mod 2 = 1" by arith
  then show ?thesis
    by (auto simp add: and_one_eq dest: arg_cong [where f = even])
qed

lemma idtex4Index_nibble:
  "idtex4Index packed pixelIdx =
     (if even pixelIdx then take_bit 4 packed else drop_bit 4 packed)"
  unfolding idtex4Index_def nat_and_one
  by (simp add: take_bit_eq_mask mask_eq_exp_minus_1)

lemma idtex4Index_unat:
  "unat (idtex4Index packed pixelIdx) =
     (if even pixelIdx then unat packed mod 16 else unat packed div 16)"
  by (simp add: idtex4Index_nibble take_bit_eq_mod drop_bit_eq_div unat_mod unat_div)

text \<open>
  C7. An RGB16 value decodes to R from bits 0..4, G from bits 5..9 and B from bits
  10..14, each 5-bit channel widened by a left shift of 3 with its top three bits
  repeated below, and to alpha 255 when bit 15 is set, else 0. The value is the
  little-endian reading of two consecutive bytes. Image pixels of an RGB16 picture and
  the entries of an RGB16 CLUT are both decoded by this rule.
\<close>

theorem rgb16_decode:
  "toColor32 v =
     \<lparr>r = spec_expand5 (spec_channel 0 v), g = spec_expand5 (spec_channel 5 v),
      b = spec_expand5 (spec_channel 10 v), a = (if bit v 15 then 255 else 0)\<rparr> \<and>
   rd16 mem i = (if i + 1 < length mem
                 then Some (word_of_nat (unat (mem ! i) + 256 * unat (mem ! (i + 1))))
                 else None) \<and>
   (getImagePixelFormat (header p) = TIM2_RGB16 \<and> getMipMapWidth p mipLevel = Some width \<longrightarrow>
      getPixelColor p x y mipLevel =
        map_option toColor32
          (rd16 (imageData p) (getImageOffset p mipLevel + (y * width + x) * 2))) \<and>
   clutEntry TIM2_RGB16 mem index = map_option toColor32 (rd16 mem (index * 2))"
  using toColor32_spec [of v] rd16_little_endian [of mem i]
    getPixelColor_RGB16 [of p mipLevel width x y] clutEntry_RGB16 [of mem index]
  by simp

theorem rgb16_decode_witness:
  "getImagePixelFormat (header pic_rgb16) = TIM2_RGB16 \<and>
   getMipMapWidth pic_rgb16 0 = Some 1 \<and>
   rd16 (imageData pic_rgb16) 0 = Some 0x83E5 \<and>
   getPixelColor pic_rgb16 0 0 0 = Some (toColor32 0x83E5) \<and>
   toColor32 0x83E5 = \<lparr>r = 41, g = 255, b = 0, a = 255\<rparr>"
proof -
  have f: "getImagePixelFormat (header pic_rgb16) = TIM2_RGB16" by code_simp
  have w: "getMipMapWidth pic_rgb16 0 = Some 1" by code_simp
  have o: "getImageOffset pic_rgb16 0 = 0" by code_simp
  have m: "imageData pic_rgb16 = [0xE5, 0x83]" by code_simp
  note t = rgb16_decode [of "0x83E5" "imageData pic_rgb16" 0 pic_rgb16 0 1 0 0 0]
  from t m have v: "rd16 (imageData pic_rgb16) 0 = Some 0x83E5"
    by simp
  from t f w have "getPixelColor pic_rgb16 0 0 0
                     = map_option toColor32 (rd16 (imageData pic_rgb16) 0)"
    by (simp add: o)
  then have px: "getPixelColor pic_rgb16 0 0 0 = Some (toColor32 0x83E5)"
    by (simp add: v)
  have c: "toColor32 0x83E5 = \<lparr>r = 41, g = 255, b = 0, a = 255\<rparr>"
    by code_simp
  from f w v px c show ?thesis by blast
qed

text \<open>
  C8. In an IDTEX4 picture with a CLUT one byte holds two pixels: the pixel with linear
  index \<open>y * width + x\<close> reads byte \<open>(y * width + x) div 2\<close> and looks up the low nibble
  when the index is even and the high nibble when it is odd. The byte \<open>0xAB\<close> gives the
  palette index \<open>0xB\<close> to the even pixel and \<open>0xA\<close> to the odd one.
\<close>

theorem idtex4_nibbles:
  "(getImagePixelFormat (header p) = TIM2_IDTEX4 \<and> hasClut (header p) \<and>
    getMipMapWidth p mipLevel = Some width \<longrightarrow>
      getPixelColor p x y mipLevel =
        Option.bind (rd (imageData p) (getImageOffset p mipLevel + (y * width + x) div 2))
          (\<lambda>packed. lookupColor p (idtex4Index packed (y * width + x)))) \<and>
   idtex4Index packed pixelIdx =
     (if even pixelIdx then take_bit 4 packed else drop_bit 4 packed) \<and>
   unat (idtex4Index packed pixelIdx) =
     (if even pixelIdx then unat packed mod 16 else unat packed div 16) \<and>
   idtex4Index 0xAB 0 = 0x0B \<and> idtex4Index 0xAB 1 = 0x0A"
proof -
  have "idtex4Index 0xAB 0 = 0x0B" by code_simp
  moreover have "idtex4Index 0xAB 1 = 0x0A" by code_simp
  ultimately show ?thesis
    using getPixelColor_IDTEX4 [of p mipLevel width x y]
      idtex4Index_nibble [of packed pixelIdx] idtex4Index_unat [of packed pixelIdx]
    by simp
qed

theorem idtex4_nibbles_witness:
  "getImagePixelFormat (header pic_idtex4) = TIM2_IDTEX4 \<and> hasClut (header pic_idtex4) \<and>
   getMipMapWidth pic_idtex4 0 = Some 2 \<and>
   getPixelColor pic_idtex4 0 0 0 = lookupColor pic_idtex4 (idtex4Index 0xAB 0) \<and>
   getPixelColor pic_idtex4 1 0 0 = lookupColor pic_idtex4 (idtex4Index 0xAB 1) \<and>
   getPixelColor pic_idtex4 0 0 0 = Some \<lparr>r = 11, g = 11, b = 11, a = 255\<rparr> \<and>
   getPixelColor pic_idtex4 1 0 0 = Some \<lparr>r = 10, g = 10, b = 10, a = 255\<rparr>"
proof -
  have f: "getImagePixelFormat (header pic_idtex4) = TIM2_IDTEX4" by code_simp
  have c: "hasClut (header pic_idtex4)" by code_simp
  have w: "getMipMapWidth pic_idtex4 0 = Some 2" by code_simp
  have b: "rd (imageData pic_idtex4) (getImageOffset pic_idtex4 0 + 0) = Some 0xAB"
    by code_simp
  from idtex4_nibbles [of pic_idtex4 0 2 0 0 0 0] f c w b
  have p0: "getPixelColor pic_idtex4 0 0 0 = lookupColor pic_idtex4 (idtex4Index 0xAB 0)"
    by simp
  from idtex4_nibbles [of pic_idtex4 0 2 1 0 0 0] f c w b
  have p1: "getPixelColor pic_idtex4 1 0 0 = lookupColor pic_idtex4 (idtex4Index 0xAB 1)"
    by simp
  have l0: "lookupColor pic_idtex4 (idtex4Index 0xAB 0) = Some \<lparr>r = 11, g = 11, b = 11, a = 255\<rparr>"
    by code_simp
  have l1: "lookupColor pic_idtex4 (idtex4Index 0xAB 1) = Some \<lparr>r = 10, g = 10, b = 10, a = 255\<rparr>"
    by code_simp
  from f c w p0 p1 l0 l1 show ?thesis by simp
qed

text \<open>
  C1. The colour the decoder leaves for a pixel it cannot resolve is the default
  colour of \<open>Color32\<close>, which is opaque black \<open>(0, 0, 0, 255)\<close> and not the
  transparent black \<open>(0, 0, 0, 0)\<close> that the comments of \<open>getPixelColor\<close> and
  \<open>getClutColors\<close> announce: for an image format byte outside the enumeration, for an
  IDTEX8 pixel of a picture without a CLUT, and for an IDTEX8 pixel whose index 5 is
  outside a CLUT of two colours.
\<close>

theorem unresolved_pixel_is_opaque_black:
  "getPixelColor pic_unknown_format 0 0 0 = Some \<lparr>r = 0, g = 0, b = 0, a = 255\<rparr> \<and>
   decodeImage pic_unknown_format 0 = Some [\<lparr>r = 0, g = 0, b = 0, a = 255\<rparr>] \<and>
   \<not> hasClut (header pic_idtex8_no_clut) \<and>
   getPixelColor pic_idtex8_no_clut 0 0 0 = Some \<lparr>r = 0, g = 0, b = 0, a = 255\<rparr> \<and>
   hasClut (header pic_idtex8_small_clut) \<and>
   map_option length (getClutColors pic_idtex8_small_clut) = Some 2 \<and>
   rd (imageData pic_idtex8_small_clut) 0 = Some 5 \<and>
   getPixelColor pic_idtex8_small_clut 0 0 0 = Some \<lparr>r = 0, g = 0, b = 0, a = 255\<rparr>"
  by code_simp

text \<open>
  The same for every picture: an image format byte outside the enumeration decodes
  every pixel of a level below 32 to the default colour.
\<close>

lemma unknown_format_default:
  assumes "getImagePixelFormat (header p) \<notin>
             {TIM2_RGB16, TIM2_RGB24, TIM2_RGB32, TIM2_IDTEX4, TIM2_IDTEX8}"
    and "mipLevel < 32"
  shows "getPixelColor p x y mipLevel = Some \<lparr>r = 0, g = 0, b = 0, a = 255\<rparr>"
  using getPixelColor_unknown [OF assms] by (simp add: Color32_default_def)

text \<open>
  C6. A mip level greater than or equal to the declared level count decodes to the
  empty sequence: the result is a value, so no read outside a buffer has happened.
\<close>

theorem decodeImage_level_out_of_range:
  "unat (mipMapTextures (header p)) \<le> mipLevel \<Longrightarrow> decodeImage p mipLevel = Some []"
  by (simp add: decodeImage_def)

theorem decodeImage_level_out_of_range_witness:
  "unat (mipMapTextures (header pic_rgb16)) \<le> 1 \<and> decodeImage pic_rgb16 1 = Some [] \<and>
   unat (mipMapTextures (header pic_rgb16)) \<le> 300 \<and> decodeImage pic_rgb16 300 = Some []"
proof -
  have h: "unat (mipMapTextures (header pic_rgb16)) \<le> 1"
    by code_simp
  then have h': "unat (mipMapTextures (header pic_rgb16)) \<le> 300"
    by simp
  from h h' decodeImage_level_out_of_range [OF h] decodeImage_level_out_of_range [OF h']
  show ?thesis by simp
qed

text \<open>
  C10 as stated fails: a picture with a CLUT blob and a CLUT format that declares zero
  colours has a CLUT and an empty palette.
\<close>

theorem empty_palette_with_clut:
  "hasClut (header pic_zero_colors) \<and> getClutColors pic_zero_colors = Some []"
  by code_simp

text \<open>
  C10, amended. Without a CLUT the palette is empty. With a CLUT whose entries all lie
  inside the CLUT blob the palette has exactly \<open>clutColors\<close> entries, whatever the
  mode and the entry format; so it is empty exactly when there is no CLUT or no colour
  is declared. With a CLUT and an entry outside the blob the read is out of bounds.
\<close>

theorem getClutColors_length:
  "(\<not> hasClut (header p) \<longrightarrow> getClutColors p = Some []) \<and>
   (hasClut (header p) \<and> clutInBounds p \<longrightarrow>
      (\<exists>cs. getClutColors p = Some cs \<and> length cs = unat (clutColors (header p)))) \<and>
   (getClutColors p = Some [] \<longleftrightarrow>
      \<not> hasClut (header p) \<or> (clutInBounds p \<and> clutColors (header p) = 0)) \<and>
   (getClutColors p = None \<longleftrightarrow> hasClut (header p) \<and> \<not> clutInBounds p)"
proof -
  have "unat (clutColors (header p)) = 0 \<longleftrightarrow> clutColors (header p) = 0"
    by (simp add: unat_eq_0)
  then show ?thesis
    using getClutColors_Some_iff [of p] getClutColors_None_iff [of p]
    by (auto split: if_splits)
qed

theorem getClutColors_length_witness:
  "hasClut (header pic_compound32) \<and> clutInBounds pic_compound32 \<and>
   unat (clutColors (header pic_compound32)) = 32 \<and>
   map_option length (getClutColors pic_compound32) = Some 32 \<and>
   \<not> hasClut (header pic_idtex8_no_clut) \<and> getClutColors pic_idtex8_no_clut = Some []"
proof -
  have h: "hasClut (header pic_compound32)" by code_simp
  have i: "clutInBounds pic_compound32" by code_simp
  have n: "unat (clutColors (header pic_compound32)) = 32" by code_simp
  have h': "\<not> hasClut (header pic_idtex8_no_clut)" by code_simp
  from getClutColors_length [of pic_compound32] h i n
  have "map_option length (getClutColors pic_compound32) = Some 32"
    by auto
  moreover from getClutColors_length [of pic_idtex8_no_clut] h'
  have "getClutColors pic_idtex8_no_clut = Some []"
    by simp
  ultimately show ?thesis using h i n h' by simp
qed

subsection \<open>Whole levels\<close>










subsection \<open>The stream\<close>

lemma good_open_stream: "good (open_stream raw)"
  by (simp add: good_def open_stream_def)

lemma good_pos_update: "good (file\<lparr>pos := n\<rparr>) = good file"
  by (simp add: good_def)

lemma good_clear_eof: "good file \<Longrightarrow> file\<lparr>eofbit := False\<rparr> = file"
  by (cases "file") (simp add: good_def)

lemma good_pos_same: "file\<lparr>pos := pos file\<rparr> = file"
  by (cases "file") simp

lemma stream_read_fits:
  assumes "good file" and "n \<le> length (bytes file) - pos file"
  shows "stream_read n file = (field (pos file) n (bytes file), file\<lparr>pos := pos file + n\<rparr>)"
  using assms by (simp add: stream_read_def field_def Let_def)

lemma stream_read_short:
  assumes "\<not> n \<le> length (bytes file) - pos file"
  shows "failbit (snd (stream_read n file))"
  using assms by (simp add: stream_read_def Let_def)

lemma stream_read_failed:
  assumes "\<not> good file"
  shows "failbit (snd (stream_read n file))"
  using assms by (simp add: stream_read_def)

lemma stream_read_length: "length (fst (stream_read n file)) \<le> n"
  by (auto simp: stream_read_def Let_def)

lemma seekg_good: "good file \<Longrightarrow> seekg target file = file\<lparr>pos := target\<rparr>"
  by (simp add: seekg_def Let_def good_clear_eof) (simp add: good_def)

lemma seekg_cur_good: "good file \<Longrightarrow> seekg_cur off file = file\<lparr>pos := pos file + off\<rparr>"
  by (simp add: seekg_cur_def Let_def good_clear_eof) (simp add: good_def)

lemma seekg_cur_failed: "failbit file \<Longrightarrow> \<not> good (seekg_cur off file)"
  by (simp add: seekg_cur_def Let_def good_def)

lemma alignOffset_spec:
  assumes "0 < unit"
  shows "alignOffset c unit = spec_alignUp unit c"
proof (cases "c mod unit = 0")
  case True
  then obtain q where c: "c = unit * q" by auto
  have "unit * q \<le> unit * q + unit - 1" and "unit * q + unit - 1 < unit * Suc q"
    using assms by simp_all
  then have "(unit * q + unit - 1) div unit = q"
    by (rule div_nat_eqI)
  with True c show ?thesis
    by (simp add: alignOffset_def spec_alignUp_def)
next
  case False
  define q m where "q = c div unit" and "m = c mod unit"
  have c: "c = unit * q + m" and m: "0 < m" "m < unit"
    using False assms by (simp_all add: q_def m_def)
  have "unit * Suc q \<le> c + unit - 1" and "c + unit - 1 < unit * Suc (Suc q)"
    using c m by simp_all
  then have "(c + unit - 1) div unit = Suc q"
    by (rule div_nat_eqI)
  then have "alignOffset c unit = unit * q + unit"
    by (simp add: alignOffset_def)
  also have "\<dots> = c + (unit - m)"
    using c m by simp
  finally show ?thesis
    using False by (simp add: spec_alignUp_def m_def)
qed

lemma spec_alignUp_ge: "c \<le> spec_alignUp unit c"
  by (simp add: spec_alignUp_def)

lemma skipAlignment_good:
  assumes "good file" and "0 < unit"
  shows "skipAlignment file unit = file\<lparr>pos := spec_alignUp unit (pos file)\<rparr>"
proof -
  have t: "tellg file = pos file"
    using assms by (simp add: tellg_def good_def)
  show ?thesis
  proof (cases "spec_alignUp unit (pos file) > pos file")
    case True
    with assms t show ?thesis
      by (simp add: skipAlignment_def Let_def alignOffset_spec seekg_good)
  next
    case False
    with spec_alignUp_ge [of "pos file" unit] have "spec_alignUp unit (pos file) = pos file"
      by simp
    with assms t show ?thesis
      by (simp add: skipAlignment_def Let_def alignOffset_spec good_pos_same)
  qed
qed

subsection \<open>Headers from bytes\<close>

lemma field_append: "off + n \<le> length xs \<Longrightarrow> field off n (xs @ ys) = field off n xs"
  by (simp add: field_def)

lemma field_take: "off + n \<le> k \<Longrightarrow> field off n (take k xs) = field off n xs"
  by (simp add: field_def take_drop min_def)

lemma FileHeader_of_bytes_append:
  "16 \<le> length xs \<Longrightarrow> FileHeader_of_bytes (xs @ ys) = FileHeader_of_bytes xs"
  by (simp add: FileHeader_of_bytes_def field_append)

lemma fileId_of_bytes: "fileId (FileHeader_of_bytes (field 0 16 raw)) = take 4 raw"
  by (simp add: FileHeader_of_bytes_def field_def)

subsection \<open>The file header\<close>

lemma parseFileHeader_short:
  assumes "length raw < 16"
  shows "\<exists>t' file'. parseFileHeader t (open_stream raw) = (False, t', file') \<and>
           m_lastError t' = ''Failed to read file header'' \<and>
           m_pictures t' = m_pictures t \<and> m_valid t' = m_valid t"
proof -
  have "failbit (snd (stream_read 16 (open_stream raw)))"
    by (rule stream_read_short) (use assms in \<open>simp add: open_stream_def\<close>)
  then show ?thesis
    by (cases "stream_read 16 (open_stream raw)") (simp add: parseFileHeader_def)
qed

lemma parseFileHeader_full:
  assumes "16 \<le> length raw"
  shows "parseFileHeader t (open_stream raw) =
           (if take 4 raw = [0x54, 0x49, 0x4D, 0x32]
            then (True, t\<lparr>m_fileHeader := FileHeader_of_bytes (field 0 16 raw)\<rparr>,
                  (open_stream raw)\<lparr>pos := 16\<rparr>)
            else (False, t\<lparr>m_fileHeader := FileHeader_of_bytes (field 0 16 raw),
                           m_lastError := ''Invalid TIM2 file signature''\<rparr>,
                  (open_stream raw)\<lparr>pos := 16\<rparr>))"
proof -
  have r: "stream_read 16 (open_stream raw)
             = (field 0 16 raw, (open_stream raw)\<lparr>pos := 16\<rparr>)"
    using stream_read_fits [of "open_stream raw" 16] assms
    by (simp add: good_open_stream) (simp add: open_stream_def)
  have l: "length (field 0 16 raw) = 16"
    using assms by (simp add: field_def)
  have nf: "\<not> failbit ((open_stream raw)\<lparr>pos := 16\<rparr>)"
    by (simp add: open_stream_def)
  show ?thesis
    by (simp add: parseFileHeader_def r l nf FileHeader_of_bytes_append FileHeader_isValid_def
          fileId_of_bytes)
qed

text \<open>
  C9 as stated fails: an input of 8 bytes that starts with \<open>TIM3\<close> is rejected by
  the short read of the header, before the signature is looked at, and the error is
  the read error, not the signature error.
\<close>

theorem short_bad_magic_is_read_error:
  "take 4 file_tim3_short \<noteq> [0x54, 0x49, 0x4D, 0x32] \<and>
   \<not> fst (loadFile parser0 ''a.tm2'' (Some file_tim3_short)) \<and>
   m_lastError (snd (loadFile parser0 ''a.tm2'' (Some file_tim3_short)))
     = ''Failed to read file header'' \<and>
   m_lastError (snd (loadFile parser0 ''a.tm2'' (Some file_tim3_short)))
     \<noteq> ''Invalid TIM2 file signature''"
  by code_simp

text \<open>
  C9, amended. For every input whose first 4 bytes differ from the magic \<open>TIM2\<close>,
  \<open>loadFile\<close> fails, \<open>isValid()\<close> is false and the result contains no Pictures. The
  error is the signature error when the input holds the 16 bytes of a file header, and
  the header read error when it is shorter.
\<close>

theorem bad_magic_rejected:
  "take 4 raw \<noteq> [0x54, 0x49, 0x4D, 0x32] \<Longrightarrow>
   \<not> fst (loadFile t filename (Some raw)) \<and>
   \<not> isValid (snd (loadFile t filename (Some raw))) \<and>
   getPictures (snd (loadFile t filename (Some raw))) = [] \<and>
   m_lastError (snd (loadFile t filename (Some raw))) =
     (if length raw < 16 then ''Failed to read file header''
      else ''Invalid TIM2 file signature'')"
proof (cases "length raw < 16")
  case True
  let ?t0 = "t\<lparr>m_valid := False, m_pictures := [], m_lastError := []\<rparr>"
  from parseFileHeader_short [OF True, of ?t0]
  obtain t' file' where "parseFileHeader ?t0 (open_stream raw) = (False, t', file')"
    and "m_lastError t' = ''Failed to read file header''"
    and "m_pictures t' = []" and "m_valid t' = False"
    by auto
  with True show ?thesis
    by (simp add: loadFile_def isValid_def getPictures_def)
next
  case False
  assume "take 4 raw \<noteq> [0x54, 0x49, 0x4D, 0x32]"
  with False show ?thesis
    by (simp add: loadFile_def isValid_def getPictures_def parseFileHeader_full)
qed

theorem bad_magic_rejected_witness:
  "take 4 file_tim3 \<noteq> [0x54, 0x49, 0x4D, 0x32] \<and> length file_tim3 = 16 \<and>
   \<not> fst (loadFile parser0 ''a.tm2'' (Some file_tim3)) \<and>
   \<not> isValid (snd (loadFile parser0 ''a.tm2'' (Some file_tim3))) \<and>
   getPictures (snd (loadFile parser0 ''a.tm2'' (Some file_tim3))) = [] \<and>
   m_lastError (snd (loadFile parser0 ''a.tm2'' (Some file_tim3)))
     = ''Invalid TIM2 file signature''"
proof -
  have m: "take 4 file_tim3 \<noteq> [0x54, 0x49, 0x4D, 0x32]"
    by code_simp
  have l: "length file_tim3 = 16"
    by code_simp
  from bad_magic_rejected [OF m, of parser0 "''a.tm2''"] m l show ?thesis
    by simp
qed

subsection \<open>The mipmap header\<close>

lemma readSizes_length: "length (fst (readSizes xs szs file)) = length szs"
  by (induction xs arbitrary: szs "file") (simp_all add: case_prod_unfold Let_def)

lemma readSizes_failed: "failbit file \<Longrightarrow> failbit (snd (readSizes xs szs file))"
proof (induction xs arbitrary: szs "file")
  case Nil
  then show ?case by simp
next
  case (Cons i rest)
  from Cons.prems have "failbit (snd (stream_read 4 file))"
    by (intro stream_read_failed) (simp add: good_def)
  then show ?case
    by (simp add: case_prod_unfold Let_def Cons.IH)
qed

lemma readSizes_short:
  "\<not> 4 * length xs \<le> length (bytes file) - pos file \<Longrightarrow> failbit (snd (readSizes xs szs file))"
proof (induction xs arbitrary: szs "file")
  case Nil
  then show ?case by simp
next
  case (Cons i rest)
  show ?case
  proof (cases "good file \<and> 4 \<le> length (bytes file) - pos file")
    case True
    then have r: "stream_read 4 file = (field (pos file) 4 (bytes file), file\<lparr>pos := pos file + 4\<rparr>)"
      by (simp add: stream_read_fits)
    from Cons.prems True
    have "\<not> 4 * length rest \<le> length (bytes (file\<lparr>pos := pos file + 4\<rparr>))
                                 - pos (file\<lparr>pos := pos file + 4\<rparr>)"
      by simp arith
    from Cons.IH [OF this] show ?thesis
      by (simp add: r)
  next
    case False
    then have "failbit (snd (stream_read 4 file))"
      using stream_read_failed [of "file" 4] stream_read_short [of 4 "file"] by blast
    then show ?thesis
      by (simp add: case_prod_unfold Let_def readSizes_failed)
  qed
qed

lemma readSizes_fits:
  "good file \<Longrightarrow> 4 * length xs \<le> length (bytes file) - pos file \<Longrightarrow>
   snd (readSizes xs szs file) = file\<lparr>pos := pos file + 4 * length xs\<rparr>"
proof (induction xs arbitrary: szs "file")
  case Nil
  then show ?case by (simp add: good_pos_same)
next
  case (Cons i rest)
  then have r: "stream_read 4 file = (field (pos file) 4 (bytes file), file\<lparr>pos := pos file + 4\<rparr>)"
    by (simp add: stream_read_fits)
  from Cons.prems
  have "good (file\<lparr>pos := pos file + 4\<rparr>)"
    and "4 * length rest \<le> length (bytes (file\<lparr>pos := pos file + 4\<rparr>))
                              - pos (file\<lparr>pos := pos file + 4\<rparr>)"
    by (simp_all add: good_pos_update)
  from Cons.IH [OF this] show ?case
    by (simp add: r add.assoc)
qed

lemma parseMipMapHeader_picture:
  assumes "parseMipMapHeader file pic = (ok, pic', file')"
  shows "header pic' = header pic \<and>
         (\<exists>mh. mipMapHeader pic' = Some mh \<and>
                length (sizes mh) = unat (mipMapTextures (header pic)))"
  using assms readSizes_length [of "[0 ..< unat (mipMapTextures (header pic))]"]
  by (auto simp: parseMipMapHeader_def Let_def case_prod_unfold)

lemma parseMipMapHeader_short:
  assumes "\<not> 16 + 4 * unat (mipMapTextures (header pic)) \<le> length (bytes file) - pos file"
  shows "\<not> fst (parseMipMapHeader file pic)"
proof -
  let ?n = "unat (mipMapTextures (header pic))"
  let ?f1 = "snd (stream_read 8 file)"
  let ?f2 = "snd (stream_read 8 ?f1)"
  let ?f3 = "snd (readSizes [0 ..< ?n] (replicate ?n 0) ?f2)"
  have "failbit ?f3"
  proof (cases "good file \<and> 8 \<le> length (bytes file) - pos file")
    case False
    then have "failbit ?f1"
      using stream_read_failed [of "file" 8] stream_read_short [of 8 "file"] by blast
    then have "failbit ?f2"
      by (intro stream_read_failed) (simp add: good_def)
    then show ?thesis
      by (rule readSizes_failed)
  next
    case True
    then have f1: "?f1 = file\<lparr>pos := pos file + 8\<rparr>"
      by (simp add: stream_read_fits)
    show ?thesis
    proof (cases "8 \<le> length (bytes ?f1) - pos ?f1")
      case False
      then have "failbit ?f2"
        by (rule stream_read_short)
      then show ?thesis
        by (rule readSizes_failed)
    next
      case 8: True
      with True f1 have f2: "?f2 = file\<lparr>pos := pos file + 16\<rparr>"
        by (simp add: stream_read_fits good_pos_update)
      from 8 have "8 \<le> length (bytes file) - (pos file + 8)"
        by (simp add: f1)
      with assms True have "\<not> 4 * length [0 ..< ?n] \<le> length (bytes ?f2) - pos ?f2"
        by (simp add: f2)
      then show ?thesis
        by (rule readSizes_short)
    qed
  qed
  then have "\<not> good ?f3" and "\<not> good (seekg_cur k ?f3)" for k
    by (simp_all add: seekg_cur_failed) (simp add: good_def)
  then show ?thesis
    by (simp add: parseMipMapHeader_def Let_def case_prod_unfold)
qed

lemma parseMipMapHeader_fits:
  assumes "good file"
    and "16 + 4 * unat (mipMapTextures (header pic)) \<le> length (bytes file) - pos file"
  shows "fst (parseMipMapHeader file pic) \<and>
         snd (snd (parseMipMapHeader file pic)) =
           file\<lparr>pos := pos file + spec_alignUp 16 (16 + 4 * unat (mipMapTextures (header pic)))\<rparr>"
proof -
  let ?n = "unat (mipMapTextures (header pic))"
  let ?f1 = "snd (stream_read 8 file)"
  let ?f2 = "snd (stream_read 8 ?f1)"
  let ?f3 = "snd (readSizes [0 ..< ?n] (replicate ?n 0) ?f2)"
  from assms have f1: "?f1 = file\<lparr>pos := pos file + 8\<rparr>"
    by (simp add: stream_read_fits)
  with assms have f2: "?f2 = file\<lparr>pos := pos file + 16\<rparr>"
    by (simp add: stream_read_fits good_pos_update)
  from assms have "good ?f2" and "4 * length [0 ..< ?n] \<le> length (bytes ?f2) - pos ?f2"
    by (simp_all add: f2 good_pos_update)
  from readSizes_fits [OF this] have f3: "?f3 = file\<lparr>pos := pos file + (16 + 4 * ?n)\<rparr>"
    by (simp add: f2)
  then have g3: "good ?f3"
    using assms by (simp add: good_pos_update)
  have m: "?n * 4 = 4 * ?n"
    by simp
  have al: "alignOffset (16 + 4 * ?n) 16 = spec_alignUp 16 (16 + 4 * ?n)"
    by (simp add: alignOffset_spec)
  have ge: "16 + 4 * ?n \<le> spec_alignUp 16 (16 + 4 * ?n)"
    by (rule spec_alignUp_ge)
  show ?thesis
  proof (cases "spec_alignUp 16 (16 + 4 * ?n) > 16 + 4 * ?n")
    case True
    then have "snd (snd (parseMipMapHeader file pic))
                 = seekg_cur (spec_alignUp 16 (16 + 4 * ?n) - (16 + 4 * ?n)) ?f3"
      by (simp add: parseMipMapHeader_def Let_def case_prod_unfold m al)
    also have "\<dots> = file\<lparr>pos := pos file + spec_alignUp 16 (16 + 4 * ?n)\<rparr>"
      using True g3 by (simp add: seekg_cur_good) (simp add: f3)
    finally have p: "snd (snd (parseMipMapHeader file pic))
                       = file\<lparr>pos := pos file + spec_alignUp 16 (16 + 4 * ?n)\<rparr>" .
    have "fst (parseMipMapHeader file pic) = good (snd (snd (parseMipMapHeader file pic)))"
      by (simp add: parseMipMapHeader_def Let_def case_prod_unfold)
    with p assms show ?thesis
      by (simp add: good_pos_update)
  next
    case False
    with ge have e: "spec_alignUp 16 (16 + 4 * ?n) = 16 + 4 * ?n"
      by simp
    then have "snd (snd (parseMipMapHeader file pic)) = ?f3"
      by (simp add: parseMipMapHeader_def Let_def case_prod_unfold m al)
    moreover have "fst (parseMipMapHeader file pic) = good (snd (snd (parseMipMapHeader file pic)))"
      by (simp add: parseMipMapHeader_def Let_def case_prod_unfold)
    ultimately show ?thesis
      using g3 by (simp add: f3 e)
  qed
qed

subsection \<open>User space, image data and CLUT data\<close>

lemma stream_read_good_iff:
  "good file \<Longrightarrow> good (snd (stream_read n file)) = (n \<le> length (bytes file) - pos file)"
  using stream_read_fits [of "file" n] stream_read_short [of n "file"]
  by (cases "n \<le> length (bytes file) - pos file") (auto simp: good_pos_update good_def)

lemma stream_read_snd_fits:
  "good file \<Longrightarrow> n \<le> length (bytes file) - pos file \<Longrightarrow>
   snd (stream_read n file) = file\<lparr>pos := pos file + n\<rparr>"
  by (simp add: stream_read_fits)

lemma parseUserSpace_header:
  "header (fst (snd (parseUserSpace file pic))) = header pic"
  by (simp add: parseUserSpace_def Let_def case_prod_unfold)

lemma parseUserSpace_mipMapHeader:
  "mipMapHeader (fst (snd (parseUserSpace file pic))) = mipMapHeader pic"
  by (simp add: parseUserSpace_def Let_def case_prod_unfold)

lemma parseUserSpace_ok:
  assumes "good file" and "headerDataSize pic < unat (headerSize (header pic))"
  shows "fst (parseUserSpace file pic) =
           (unat (headerSize (header pic)) - headerDataSize pic \<le> length (bytes file) - pos file)"
  using assms
  by (simp add: parseUserSpace_def Let_def case_prod_unfold stream_read_good_iff)

lemma parseUserSpace_file:
  assumes "good file" and "headerDataSize pic < unat (headerSize (header pic))"
    and "unat (headerSize (header pic)) - headerDataSize pic \<le> length (bytes file) - pos file"
  shows "snd (snd (parseUserSpace file pic)) =
           file\<lparr>pos := pos file + (unat (headerSize (header pic)) - headerDataSize pic)\<rparr>"
  using assms
  by (simp add: parseUserSpace_def Let_def case_prod_unfold stream_read_snd_fits)

lemma parseImageData_header:
  "header (fst (snd (parseImageData file pic))) = header pic"
  by (simp add: parseImageData_def Let_def case_prod_unfold)

lemma parseImageData_mipMapHeader:
  "mipMapHeader (fst (snd (parseImageData file pic))) = mipMapHeader pic"
  by (simp add: parseImageData_def Let_def case_prod_unfold)

lemma parseImageData_ok:
  "good file \<Longrightarrow>
   fst (parseImageData file pic) = (unat (imageSize (header pic)) \<le> length (bytes file) - pos file)"
  by (simp add: parseImageData_def Let_def case_prod_unfold stream_read_good_iff)

lemma parseImageData_file:
  "good file \<Longrightarrow> unat (imageSize (header pic)) \<le> length (bytes file) - pos file \<Longrightarrow>
   snd (snd (parseImageData file pic)) = file\<lparr>pos := pos file + unat (imageSize (header pic))\<rparr>"
  by (simp add: parseImageData_def Let_def case_prod_unfold stream_read_snd_fits)

lemma parseClutData_header:
  "header (fst (snd (parseClutData file pic))) = header pic"
  by (simp add: parseClutData_def Let_def case_prod_unfold)

lemma parseClutData_mipMapHeader:
  "mipMapHeader (fst (snd (parseClutData file pic))) = mipMapHeader pic"
  by (simp add: parseClutData_def Let_def case_prod_unfold)

lemma parseClutData_ok:
  "good file \<Longrightarrow>
   fst (parseClutData file pic) = (unat (clutSize (header pic)) \<le> length (bytes file) - pos file)"
  by (simp add: parseClutData_def Let_def case_prod_unfold stream_read_good_iff)

lemma parseClutData_file:
  "good file \<Longrightarrow> unat (clutSize (header pic)) \<le> length (bytes file) - pos file \<Longrightarrow>
   snd (snd (parseClutData file pic)) = file\<lparr>pos := pos file + unat (clutSize (header pic))\<rparr>"
  by (simp add: parseClutData_def Let_def case_prod_unfold stream_read_snd_fits)

lemma parseMipMapHeader_header:
  "header (fst (snd (parseMipMapHeader file pic))) = header pic"
  using parseMipMapHeader_picture [of "file" pic] by (cases "parseMipMapHeader file pic") auto

lemma parseMipMapHeader_sizes:
  "\<exists>mh. mipMapHeader (fst (snd (parseMipMapHeader file pic))) = Some mh \<and>
         length (sizes mh) = unat (mipMapTextures (header pic))"
  using parseMipMapHeader_picture [of "file" pic] by (cases "parseMipMapHeader file pic") auto

lemma parseMipMapHeader_headerDataSize:
  "headerDataSize (fst (snd (parseMipMapHeader file pic)))
     = 48 + spec_alignUp 16 (16 + 4 * unat (mipMapTextures (header pic)))"
proof -
  obtain mh where "mipMapHeader (fst (snd (parseMipMapHeader file pic))) = Some mh"
    using parseMipMapHeader_sizes by blast
  moreover have "unat (mipMapTextures (header pic)) * 4 = 4 * unat (mipMapTextures (header pic))"
    by simp
  ultimately show ?thesis
    by (simp add: headerDataSize_def parseMipMapHeader_header alignOffset_spec mult.commute)
qed

lemma parseMipMapHeader_ok:
  "good file \<Longrightarrow>
   fst (parseMipMapHeader file pic) =
     (16 + 4 * unat (mipMapTextures (header pic)) \<le> length (bytes file) - pos file)"
  using parseMipMapHeader_fits [of "file" pic] parseMipMapHeader_short [of pic "file"]
  by blast

lemma parseMipMapHeader_file:
  "good file \<Longrightarrow> 16 + 4 * unat (mipMapTextures (header pic)) \<le> length (bytes file) - pos file \<Longrightarrow>
   snd (snd (parseMipMapHeader file pic)) =
     file\<lparr>pos := pos file + spec_alignUp 16 (16 + 4 * unat (mipMapTextures (header pic)))\<rparr>"
  using parseMipMapHeader_fits [of "file" pic] by blast

subsection \<open>One picture\<close>

lemma parsePicture_spec:
  assumes g: "good file" and u: "0 < unit"
  shows "case spec_picture (bytes file) unit (pos file) of
           None \<Rightarrow> fst (parsePicture t file unit) = None
         | Some c \<Rightarrow> \<exists>pic. parsePicture t file unit = (Some pic, t, file\<lparr>pos := c\<rparr>)"
proof (cases "48 \<le> length (bytes file) - pos file")
  case False
  then have "failbit (snd (stream_read 48 file))"
    by (rule stream_read_short)
  then have "fst (parsePicture t file unit) = None"
    by (simp add: parsePicture_def case_prod_unfold)
  moreover from False have "spec_picture (bytes file) unit (pos file) = None"
    by (simp add: spec_picture_def spec_section_def)
  ultimately show ?thesis by simp
next
  case True
  define raw c where "raw = bytes file" and "c = pos file"
  define h where "h = PictureHeader_of_bytes (field c 48 raw)"
  define pic0 where
    "pic0 = \<lparr>header = h, mipMapHeader = None, userData = [], imageData = [], clutData = [],
             extHeader = None, comment = []\<rparr>"
  define levels where "levels = unat (mipMapTextures h)"
  define mipSize where "mipSize = (if levels > 1 then spec_alignUp 16 (16 + 4 * levels) else 0)"
  define us where "us = unat (headerSize h) - (48 + mipSize)"
  define c2 where "c2 = c + 48 + mipSize"
  define c3 where "c3 = (if unat (headerSize h) > 48 + mipSize then c2 + us else c2)"
  define a3 where "a3 = spec_alignUp unit c3"
  define c4 where "c4 = (if imageSize h > 0 then a3 + unat (imageSize h) else a3)"
  define a4 where "a4 = spec_alignUp unit c4"
  define c5 where "c5 = (if clutSize h > 0 then a4 + unat (clutSize h) else a4)"
  define ok1 where "ok1 = (levels > 1 \<longrightarrow> 16 + 4 * levels \<le> length raw - (c + 48))"
  define ok2 where "ok2 = (unat (headerSize h) > 48 + mipSize \<longrightarrow> us \<le> length raw - c2)"
  define ok3 where "ok3 = (imageSize h > 0 \<longrightarrow> unat (imageSize h) \<le> length raw - a3)"
  define ok4 where "ok4 = (clutSize h > 0 \<longrightarrow> unat (clutSize h) \<le> length raw - a4)"
  note defs = mipSize_def us_def c2_def c3_def a3_def c4_def a4_def c5_def
    ok1_def ok2_def ok3_def ok4_def

  have lv: "(mipMapTextures h > 1) = (levels > 1)"
    by (simp add: levels_def word_less_nat_alt)

  have o1: "spec_optional (levels > 1) raw (c + 48) (16 + 4 * levels) mipSize
              = (if ok1 then Some c2 else None)"
    by (simp add: spec_optional_def spec_section_def defs)
  have o2: "spec_optional (unat (headerSize h) > 48 + mipSize) raw c2
              (unat (headerSize h) - (48 + mipSize)) (unat (headerSize h) - (48 + mipSize))
              = (if ok2 then Some c3 else None)"
    by (simp add: spec_optional_def spec_section_def ok2_def c3_def us_def)
  have o3: "spec_optional (imageSize h > 0) raw (spec_alignUp unit c3)
              (unat (imageSize h)) (unat (imageSize h))
              = (if ok3 then Some c4 else None)"
    by (simp add: spec_optional_def spec_section_def ok3_def c4_def a3_def)
  have o4: "spec_optional (clutSize h > 0) raw (spec_alignUp unit c4)
              (unat (clutSize h)) (unat (clutSize h))
              = (if ok4 then Some c5 else None)"
    by (simp add: spec_optional_def spec_section_def ok4_def c5_def a4_def)
  have "spec_picture raw unit c =
          Option.bind (if ok1 then Some c2 else None)
            (\<lambda>c2. Option.bind
               (spec_optional (unat (headerSize h) > 48 + mipSize) raw c2
                  (unat (headerSize h) - (48 + mipSize)) (unat (headerSize h) - (48 + mipSize)))
               (\<lambda>c3. Option.bind
                  (spec_optional (imageSize h > 0) raw (spec_alignUp unit c3)
                     (unat (imageSize h)) (unat (imageSize h)))
                  (\<lambda>c4. spec_optional (clutSize h > 0) raw (spec_alignUp unit c4)
                          (unat (clutSize h)) (unat (clutSize h)))))"
  proof -
    have s48: "spec_section raw c 48 = Some (c + 48)"
      using True by (simp add: spec_section_def raw_def c_def)
    show ?thesis
      unfolding spec_picture_def Let_def
      by (fold h_def, fold levels_def, fold mipSize_def) (simp only: s48 Option.bind.simps o1)
  qed
  then have spec: "spec_picture raw unit c =
                     (if ok1 \<and> ok2 \<and> ok3 \<and> ok4 then Some c5 else None)"
    by (cases ok1; cases ok2; cases ok3; cases ok4) (simp_all add: o2 o3 o4)

  define f1 where "f1 = file\<lparr>pos := c + 48\<rparr>"
  have r: "stream_read 48 file = (field c 48 raw, f1)"
    using g True by (simp add: stream_read_fits f1_def raw_def c_def)
  have g1: "good f1" and nf1: "\<not> failbit f1" and b1: "bytes f1 = raw" and p1: "pos f1 = c + 48"
    using g by (simp_all add: f1_def good_def raw_def)

  define s1 where
    "s1 = (if mipMapTextures h > 1 then parseMipMapHeader f1 pic0 else (True, pic0, f1))"
  have s1_hdr: "header (fst (snd s1)) = h"
    by (simp add: s1_def parseMipMapHeader_header pic0_def)
  have s1_hds: "headerDataSize (fst (snd s1)) = 48 + mipSize"
    by (simp add: s1_def parseMipMapHeader_headerDataSize lv mipSize_def)
       (simp add: pic0_def headerDataSize_def levels_def)
  have s1_ok: "fst s1 = ok1"
    using g1 by (simp add: s1_def lv ok1_def parseMipMapHeader_ok b1 p1)
       (simp add: pic0_def levels_def)
  have s1_file: "snd (snd s1) = file\<lparr>pos := c2\<rparr>" if ok1
  proof (cases "levels > 1")
    case True
    with that have "16 + 4 * unat (mipMapTextures (header pic0)) \<le> length (bytes f1) - pos f1"
      by (simp add: ok1_def b1 p1 pic0_def levels_def)
    from parseMipMapHeader_file [OF g1 this] True show ?thesis
      by (simp add: s1_def lv c2_def mipSize_def p1)
         (simp add: f1_def pic0_def levels_def add.assoc)
  next
    case False
    then show ?thesis
      by (simp add: s1_def lv c2_def mipSize_def f1_def)
  qed

  define s2 where
    "s2 = (if unat (headerSize (header (fst (snd s1)))) > headerDataSize (fst (snd s1))
           then parseUserSpace (snd (snd s1)) (fst (snd s1))
           else (True, fst (snd s1), snd (snd s1)))"
  have s2_hdr: "header (fst (snd s2)) = h"
    by (simp add: s2_def parseUserSpace_header s1_hdr)
  have gp: "good (file\<lparr>pos := k\<rparr>)" for k
    using g by (simp add: good_pos_update)
  have s2_ok: "fst s2 = ok2" if ok1
    using that gp
    by (simp add: s2_def s1_hdr s1_hds s1_file ok2_def parseUserSpace_ok us_def raw_def)
  have s2_file: "snd (snd s2) = file\<lparr>pos := c3\<rparr>" if ok1 ok2
    using that gp
    by (simp add: s2_def s1_hdr s1_hds s1_file ok2_def parseUserSpace_file us_def raw_def c3_def)

  define f4 where "f4 = skipAlignment (snd (snd s2)) unit"
  have f4: "f4 = file\<lparr>pos := a3\<rparr>" if ok1 ok2
    using that gp u by (simp add: f4_def s2_file skipAlignment_good a3_def)

  define s3 where
    "s3 = (if imageSize (header (fst (snd s2))) > 0 then parseImageData f4 (fst (snd s2))
           else (True, fst (snd s2), f4))"
  have s3_hdr: "header (fst (snd s3)) = h"
    by (simp add: s3_def parseImageData_header s2_hdr)
  have s3_ok: "fst s3 = ok3" if ok1 ok2
    using that gp
    by (simp add: s3_def s2_hdr f4 ok3_def parseImageData_ok raw_def)
  have s3_file: "snd (snd s3) = file\<lparr>pos := c4\<rparr>" if ok1 ok2 ok3
    using that gp
    by (simp add: s3_def s2_hdr f4 ok3_def parseImageData_file raw_def c4_def)

  define f6 where "f6 = skipAlignment (snd (snd s3)) unit"
  have f6: "f6 = file\<lparr>pos := a4\<rparr>" if ok1 ok2 ok3
    using that gp u by (simp add: f6_def s3_file skipAlignment_good a4_def)

  define s4 where
    "s4 = (if clutSize (header (fst (snd s3))) > 0 then parseClutData f6 (fst (snd s3))
           else (True, fst (snd s3), f6))"
  have s4_ok: "fst s4 = ok4" if ok1 ok2 ok3
    using that gp
    by (simp add: s4_def s3_hdr f6 ok4_def parseClutData_ok raw_def)
  have s4_file: "snd (snd s4) = file\<lparr>pos := c5\<rparr>" if ok1 ok2 ok3 ok4
    using that gp
    by (simp add: s4_def s3_hdr f6 ok4_def parseClutData_file raw_def c5_def)

  have pp: "parsePicture t file unit =
              (if \<not> fst s1 then (None, t, snd (snd s1))
               else if \<not> fst s2 then (None, t, snd (snd s2))
               else if \<not> fst s3 then (None, t, snd (snd s3))
               else if \<not> fst s4 then (None, t, snd (snd s4))
               else (Some (fst (snd s4)), t, snd (snd s4)))"
    unfolding parsePicture_def r
    by (simp add: nf1 case_prod_unfold Let_def s4_def f6_def s3_def f4_def s2_def s1_def
          pic0_def h_def split del: if_split cong: if_cong)

  show ?thesis
  proof (cases "ok1 \<and> ok2 \<and> ok3 \<and> ok4")
    case True
    then have "parsePicture t file unit = (Some (fst (snd s4)), t, file\<lparr>pos := c5\<rparr>)"
      by (simp add: pp s1_ok s2_ok s3_ok s4_ok s4_file)
    with True spec show ?thesis
      by (simp add: raw_def c_def)
  next
    case False
    then have "fst (parsePicture t file unit) = None"
      using s1_ok s2_ok s3_ok s4_ok by (auto simp: pp)
    with False spec show ?thesis
      by (auto simp: raw_def c_def)
  qed
qed

lemma parsePicture_stages:
  assumes "f1 = snd (stream_read 48 file)"
    and "pic0 = \<lparr>header = PictureHeader_of_bytes (fst (stream_read 48 file)),
                  mipMapHeader = None, userData = [], imageData = [], clutData = [],
                  extHeader = None, comment = []\<rparr>"
    and "s1 = (if mipMapTextures (header pic0) > 1 then parseMipMapHeader f1 pic0
               else (True, pic0, f1))"
    and "s2 = (if unat (headerSize (header (fst (snd s1)))) > headerDataSize (fst (snd s1))
               then parseUserSpace (snd (snd s1)) (fst (snd s1))
               else (True, fst (snd s1), snd (snd s1)))"
    and "s3 = (if imageSize (header (fst (snd s2))) > 0
               then parseImageData (skipAlignment (snd (snd s2)) unit) (fst (snd s2))
               else (True, fst (snd s2), skipAlignment (snd (snd s2)) unit))"
    and "s4 = (if clutSize (header (fst (snd s3))) > 0
               then parseClutData (skipAlignment (snd (snd s3)) unit) (fst (snd s3))
               else (True, fst (snd s3), skipAlignment (snd (snd s3)) unit))"
  shows "parsePicture t file unit =
           (if failbit f1 then (None, t\<lparr>m_lastError := ''Failed to read picture header''\<rparr>, f1)
            else if \<not> fst s1 then (None, t, snd (snd s1))
            else if \<not> fst s2 then (None, t, snd (snd s2))
            else if \<not> fst s3 then (None, t, snd (snd s3))
            else if \<not> fst s4 then (None, t, snd (snd s4))
            else (Some (fst (snd s4)), t, snd (snd s4)))"
  unfolding parsePicture_def assms
  by (simp add: case_prod_unfold Let_def split del: if_split cong: if_cong)

lemma parsePicture_mipMapHeader:
  assumes "parsePicture t file unit = (Some pic, t', file')"
  shows "if mipMapTextures (header pic) > 1
         then \<exists>mh. mipMapHeader pic = Some mh \<and>
                length (sizes mh) = unat (mipMapTextures (header pic))
         else mipMapHeader pic = None"
proof -
  define f1 where "f1 = snd (stream_read 48 file)"
  define pic0 where
    "pic0 = \<lparr>header = PictureHeader_of_bytes (fst (stream_read 48 file)),
             mipMapHeader = None, userData = [], imageData = [], clutData = [],
             extHeader = None, comment = []\<rparr>"
  define s1 where
    "s1 = (if mipMapTextures (header pic0) > 1 then parseMipMapHeader f1 pic0
           else (True, pic0, f1))"
  define s2 where
    "s2 = (if unat (headerSize (header (fst (snd s1)))) > headerDataSize (fst (snd s1))
           then parseUserSpace (snd (snd s1)) (fst (snd s1))
           else (True, fst (snd s1), snd (snd s1)))"
  define s3 where
    "s3 = (if imageSize (header (fst (snd s2))) > 0
           then parseImageData (skipAlignment (snd (snd s2)) unit) (fst (snd s2))
           else (True, fst (snd s2), skipAlignment (snd (snd s2)) unit))"
  define s4 where
    "s4 = (if clutSize (header (fst (snd s3))) > 0
           then parseClutData (skipAlignment (snd (snd s3)) unit) (fst (snd s3))
           else (True, fst (snd s3), skipAlignment (snd (snd s3)) unit))"
  note pp = parsePicture_stages [OF f1_def pic0_def s1_def s2_def s3_def s4_def, of t]
  with assms have pic: "pic = fst (snd s4)"
    by (auto split: if_splits)
  have h1: "header (fst (snd s1)) = header pic0"
    by (simp add: s1_def parseMipMapHeader_header)
  have m1: "if mipMapTextures (header pic0) > 1
            then \<exists>mh. mipMapHeader (fst (snd s1)) = Some mh \<and>
                   length (sizes mh) = unat (mipMapTextures (header pic0))
            else mipMapHeader (fst (snd s1)) = None"
    using parseMipMapHeader_sizes [of f1 pic0] by (simp add: s1_def) (simp add: pic0_def)
  have h2: "header (fst (snd s2)) = header pic0"
    and m2: "mipMapHeader (fst (snd s2)) = mipMapHeader (fst (snd s1))"
    by (simp_all add: s2_def parseUserSpace_header parseUserSpace_mipMapHeader h1)
  have h3: "header (fst (snd s3)) = header pic0"
    and m3: "mipMapHeader (fst (snd s3)) = mipMapHeader (fst (snd s1))"
    by (simp_all add: s3_def parseImageData_header parseImageData_mipMapHeader h2 m2)
  have h4: "header (fst (snd s4)) = header pic0"
    and m4: "mipMapHeader (fst (snd s4)) = mipMapHeader (fst (snd s1))"
    by (simp_all add: s4_def parseClutData_header parseClutData_mipMapHeader h3 m3)
  from m1 show ?thesis
    by (simp add: pic h4 m4)
qed

subsection \<open>The picture loop and the whole file\<close>

lemma parsePicture_state:
  "m_pictures (fst (snd (parsePicture t file unit))) = m_pictures t \<and>
   m_valid (fst (snd (parsePicture t file unit))) = m_valid t \<and>
   m_fileHeader (fst (snd (parsePicture t file unit))) = m_fileHeader t"
proof -
  define f1 where "f1 = snd (stream_read 48 file)"
  define pic0 where
    "pic0 = \<lparr>header = PictureHeader_of_bytes (fst (stream_read 48 file)),
             mipMapHeader = None, userData = [], imageData = [], clutData = [],
             extHeader = None, comment = []\<rparr>"
  define s1 where
    "s1 = (if mipMapTextures (header pic0) > 1 then parseMipMapHeader f1 pic0
           else (True, pic0, f1))"
  define s2 where
    "s2 = (if unat (headerSize (header (fst (snd s1)))) > headerDataSize (fst (snd s1))
           then parseUserSpace (snd (snd s1)) (fst (snd s1))
           else (True, fst (snd s1), snd (snd s1)))"
  define s3 where
    "s3 = (if imageSize (header (fst (snd s2))) > 0
           then parseImageData (skipAlignment (snd (snd s2)) unit) (fst (snd s2))
           else (True, fst (snd s2), skipAlignment (snd (snd s2)) unit))"
  define s4 where
    "s4 = (if clutSize (header (fst (snd s3))) > 0
           then parseClutData (skipAlignment (snd (snd s3)) unit) (fst (snd s3))
           else (True, fst (snd s3), skipAlignment (snd (snd s3)) unit))"
  show ?thesis
    by (simp add: parsePicture_stages [OF f1_def pic0_def s1_def s2_def s3_def s4_def, of t])
qed

lemma pictureLoop_state:
  "m_valid (fst (snd (pictureLoop xs unit t file))) = m_valid t \<and>
   m_fileHeader (fst (snd (pictureLoop xs unit t file))) = m_fileHeader t"
proof (induction xs arbitrary: t "file")
  case Nil
  show ?case by simp
next
  case (Cons i rest)
  obtain res t' file' where p: "parsePicture t file unit = (res, t', file')"
    by (cases "parsePicture t file unit") auto
  with parsePicture_state [of t "file" unit]
  have "m_valid t' = m_valid t" and "m_fileHeader t' = m_fileHeader t"
    by simp_all
  then show ?case
    by (cases res) (simp_all add: p Cons.IH)
qed

lemma pictureLoop_pictures:
  assumes "\<And>t file pic t' file'. parsePicture t file unit = (Some pic, t', file') \<Longrightarrow> P pic"
    and "\<forall>p \<in> set (m_pictures t). P p"
  shows "\<forall>p \<in> set (m_pictures (fst (snd (pictureLoop xs unit t file)))). P p"
  using assms(2)
proof (induction xs arbitrary: t "file")
  case Nil
  then show ?case by simp
next
  case (Cons i rest)
  obtain res t' file' where p: "parsePicture t file unit = (res, t', file')"
    by (cases "parsePicture t file unit") auto
  with parsePicture_state [of t "file" unit] have keep: "m_pictures t' = m_pictures t"
    by simp
  show ?case
  proof (cases res)
    case None
    with p keep Cons.prems show ?thesis by simp
  next
    case (Some pic)
    with p assms(1) have "P pic" by blast
    with keep Cons.prems have "\<forall>q \<in> set (m_pictures (t'\<lparr>m_pictures := m_pictures t' @ [pic]\<rparr>)). P q"
      by simp
    from Cons.IH [OF this] show ?thesis
      by (simp add: p Some)
  qed
qed

lemma pictureLoop_spec:
  assumes "good file" and "0 < unit"
  shows "fst (pictureLoop xs unit t file)
           = (spec_pictures (bytes file) unit (length xs) (pos file) \<noteq> None) \<and>
         (\<not> fst (pictureLoop xs unit t file) \<longrightarrow>
            length (m_pictures (fst (snd (pictureLoop xs unit t file))))
              < length (m_pictures t) + length xs \<and>
            m_lastError (fst (snd (pictureLoop xs unit t file))) \<noteq> [])"
  using assms(1)
proof (induction xs arbitrary: t "file")
  case Nil
  then show ?case by simp
next
  case (Cons i rest)
  show ?case
  proof (cases "spec_picture (bytes file) unit (pos file)")
    case None
    with parsePicture_spec [OF Cons.prems assms(2), of t]
    have n: "fst (parsePicture t file unit) = None"
      by simp
    then obtain t' file' where p: "parsePicture t file unit = (None, t', file')"
      by (cases "parsePicture t file unit") auto
    with parsePicture_state [of t "file" unit] have "m_pictures t' = m_pictures t"
      by simp
    with None p show ?thesis
      by simp
  next
    case (Some c)
    with parsePicture_spec [OF Cons.prems assms(2), of t]
    obtain pic where p: "parsePicture t file unit = (Some pic, t, file\<lparr>pos := c\<rparr>)"
      by auto
    have "good (file\<lparr>pos := c\<rparr>)"
      using Cons.prems by (simp add: good_pos_update)
    from Cons.IH [OF this, of "t\<lparr>m_pictures := m_pictures t @ [pic]\<rparr>"] Some p
    show ?thesis
      by simp
  qed
qed

lemma parseFileHeader_state:
  "m_pictures (fst (snd (parseFileHeader t file))) = m_pictures t \<and>
   m_valid (fst (snd (parseFileHeader t file))) = m_valid t"
  by (simp add: parseFileHeader_def case_prod_unfold Let_def)

lemma loadFile_pictures:
  assumes "\<And>t file unit pic t' file'. parsePicture t file unit = (Some pic, t', file') \<Longrightarrow> P pic"
  shows "\<forall>p \<in> set (getPictures (snd (loadFile t filename contents))). P p"
proof (cases contents)
  case None
  then show ?thesis
    by (simp add: loadFile_def getPictures_def)
next
  case (Some raw)
  define t0 where "t0 = t\<lparr>m_valid := False, m_pictures := [], m_lastError := []\<rparr>"
  define res where "res = parseFileHeader t0 (open_stream raw)"
  define t1 where "t1 = fst (snd res)"
  define unit where "unit = getAlignment (m_fileHeader t1)"
  define lp where
    "lp = pictureLoop [0 ..< unat (pictures (m_fileHeader t1))] unit t1
            (skipAlignment (snd (snd res)) unit)"
  have l: "loadFile t filename contents =
             (if \<not> fst res then (False, t1)
              else if \<not> fst lp then (False, fst (snd lp))
              else (True, (fst (snd lp))\<lparr>m_valid := True\<rparr>))"
    unfolding loadFile_def Some
    by (simp add: case_prod_unfold Let_def lp_def unit_def t1_def res_def t0_def
          split del: if_split cong: if_cong)
  have e: "m_pictures t1 = []"
    using parseFileHeader_state [of t0 "open_stream raw"] by (simp add: t1_def res_def t0_def)
  then have "\<forall>p \<in> set (m_pictures t1). P p"
    by simp
  from pictureLoop_pictures [of unit P, OF assms this]
  have "\<forall>p \<in> set (m_pictures (fst (snd lp))). P p"
    by (simp add: lp_def)
  with e show ?thesis
    by (simp add: l getPictures_def)
qed

text \<open>
  C2 as stated fails: the file \<open>file_two_levels\<close> loads, its picture declares two mip
  levels, and the parsed mipmap header holds two sizes, one for each level including
  the base, not one.
\<close>

theorem two_levels_two_sizes:
  "fst (loadFile parser0 ''a.tm2'' (Some file_two_levels)) \<and>
   length (getPictures (snd (loadFile parser0 ''a.tm2'' (Some file_two_levels)))) = 1 \<and>
   unat (mipMapTextures (header (hd (getPictures (snd (loadFile parser0 ''a.tm2''
                                                        (Some file_two_levels))))))) = 2 \<and>
   map_option sizes (mipMapHeader (hd (getPictures (snd (loadFile parser0 ''a.tm2''
                                                         (Some file_two_levels))))))
     = Some [16, 16] \<and>
   map_option (length \<circ> sizes)
     (mipMapHeader (hd (getPictures (snd (loadFile parser0 ''a.tm2'' (Some file_two_levels))))))
     \<noteq> Some (2 - 1)"
  by code_simp

text \<open>
  C2, amended. Every picture that \<open>loadFile\<close> delivers with a mip level count greater
  than 1 has a mipmap header whose \<open>sizes\<close> array holds exactly \<open>levelCount\<close> entries,
  one 32-bit byte size per mip level, the base level included; a picture with a level
  count of at most 1 has no mipmap header.
\<close>

theorem mipmap_sizes_per_level:
  "\<forall>p \<in> set (getPictures (snd (loadFile t filename contents))).
     if mipMapTextures (header p) > 1
     then \<exists>mh. mipMapHeader p = Some mh \<and>
            length (sizes mh) = unat (mipMapTextures (header p))
     else mipMapHeader p = None"
  by (rule loadFile_pictures) (rule parsePicture_mipMapHeader)

theorem mipmap_sizes_per_level_witness:
  "hd (getPictures (snd (loadFile parser0 ''a.tm2'' (Some file_two_levels))))
     \<in> set (getPictures (snd (loadFile parser0 ''a.tm2'' (Some file_two_levels)))) \<and>
   mipMapTextures (header (hd (getPictures (snd (loadFile parser0 ''a.tm2''
                                                  (Some file_two_levels)))))) > 1 \<and>
   map_option (length \<circ> sizes)
     (mipMapHeader (hd (getPictures (snd (loadFile parser0 ''a.tm2'' (Some file_two_levels))))))
     = Some (unat (mipMapTextures (header (hd (getPictures (snd (loadFile parser0 ''a.tm2''
                                                                  (Some file_two_levels))))))))"
proof -
  define ps where "ps = getPictures (snd (loadFile parser0 ''a.tm2'' (Some file_two_levels)))"
  have n: "length ps = 1"
    unfolding ps_def by code_simp
  then have m: "hd ps \<in> set ps"
    by (cases ps) simp_all
  have g: "mipMapTextures (header (hd ps)) > 1"
    unfolding ps_def by code_simp
  from mipmap_sizes_per_level [of parser0 "''a.tm2''" "Some file_two_levels"] m g
  have "\<exists>mh. mipMapHeader (hd ps) = Some mh \<and>
          length (sizes mh) = unat (mipMapTextures (header (hd ps)))"
    unfolding ps_def [symmetric] by auto
  then have "map_option (length \<circ> sizes) (mipMapHeader (hd ps))
               = Some (unat (mipMapTextures (header (hd ps))))"
    by auto
  with m g show ?thesis
    unfolding ps_def by simp
qed

lemma loadFile_spec:
  assumes len: "16 \<le> length raw" and magic: "take 4 raw = [0x54, 0x49, 0x4D, 0x32]"
  shows "fst (loadFile t filename (Some raw)) = (\<not> spec_truncated raw) \<and>
         isValid (snd (loadFile t filename (Some raw))) = (\<not> spec_truncated raw) \<and>
         (spec_truncated raw \<longrightarrow>
            m_lastError (snd (loadFile t filename (Some raw))) \<noteq> [] \<and>
            length (getPictures (snd (loadFile t filename (Some raw))))
              < unat (pictures (m_fileHeader (snd (loadFile t filename (Some raw))))))"
proof -
  define t0 where "t0 = t\<lparr>m_valid := False, m_pictures := [], m_lastError := []\<rparr>"
  define fh where "fh = FileHeader_of_bytes (field 0 16 raw)"
  define t1 where "t1 = t0\<lparr>m_fileHeader := fh\<rparr>"
  define unit where "unit = getAlignment fh"
  define n where "n = unat (pictures fh)"
  define f2 where "f2 = (open_stream raw)\<lparr>pos := spec_alignUp unit 16\<rparr>"
  define lp where "lp = pictureLoop [0 ..< n] unit t1 f2"
  have u: "0 < unit"
    by (simp add: unit_def getAlignment_def)
  have hdr: "parseFileHeader t0 (open_stream raw) = (True, t1, (open_stream raw)\<lparr>pos := 16\<rparr>)"
    using len magic by (simp add: parseFileHeader_full t1_def fh_def)
  have g16: "good ((open_stream raw)\<lparr>pos := 16\<rparr>)"
    by (simp add: good_pos_update good_open_stream)
  have sk: "skipAlignment ((open_stream raw)\<lparr>pos := 16\<rparr>) unit = f2"
    using skipAlignment_good [OF g16 u] by (simp add: f2_def)
  have l: "loadFile t filename (Some raw) =
             (if \<not> fst lp then (False, fst (snd lp))
              else (True, (fst (snd lp))\<lparr>m_valid := True\<rparr>))"
  proof -
    have fh1: "m_fileHeader t1 = fh"
      by (simp add: t1_def)
    show ?thesis
      unfolding loadFile_def
      by (simp add: t0_def [symmetric] hdr case_prod_unfold Let_def)
         (simp add: fh1 unit_def [symmetric] sk n_def [symmetric] lp_def [symmetric])
  qed
  have g2: "good f2" and b2: "bytes f2 = raw" and p2: "pos f2 = spec_alignUp unit 16"
    by (simp_all add: f2_def good_pos_update good_open_stream) (simp add: open_stream_def)
  have tr: "spec_truncated raw = (spec_pictures raw unit n (spec_alignUp unit 16) = None)"
    using len
    by (simp add: spec_truncated_def Let_def unit_def n_def fh_def getAlignment_def
          TIM2_ALIGN_128_def field_def)
  from pictureLoop_spec [OF g2 u, of "[0 ..< n]" t1]
  have ok: "fst lp = (\<not> spec_truncated raw)"
    and bad: "\<not> fst lp \<Longrightarrow> length (m_pictures (fst (snd lp))) < n \<and>
                m_lastError (fst (snd lp)) \<noteq> []"
    by (simp_all add: lp_def b2 p2 tr t1_def t0_def)
  from pictureLoop_state [of "[0 ..< n]" unit t1 f2]
  have st: "m_valid (fst (snd lp)) = False" "m_fileHeader (fst (snd lp)) = fh"
    by (simp_all add: lp_def t1_def t0_def)
  show ?thesis
    using ok bad st by (auto simp: l isValid_def getPictures_def n_def)
qed

text \<open>
  C3. When some section of the input (the file header, a picture header, a mipmap
  header, a user space, an image blob or a CLUT blob) declares more bytes than remain
  in the file, \<open>loadFile\<close> returns false, \<open>isValid()\<close> is false and an error
  message is set; when the truncation lies inside the pictures of a file with a valid
  header, fewer pictures than the header declares are in the list, so the picture that
  was cut short is not among them.
\<close>

theorem truncated_file_rejected:
  "spec_truncated raw \<Longrightarrow>
   \<not> fst (loadFile t filename (Some raw)) \<and>
   \<not> isValid (snd (loadFile t filename (Some raw))) \<and>
   m_lastError (snd (loadFile t filename (Some raw))) \<noteq> [] \<and>
   (16 \<le> length raw \<and> take 4 raw = [0x54, 0x49, 0x4D, 0x32] \<longrightarrow>
      length (getPictures (snd (loadFile t filename (Some raw))))
        < unat (pictures (m_fileHeader (snd (loadFile t filename (Some raw))))))"
proof -
  assume tr: "spec_truncated raw"
  show ?thesis
  proof (cases "16 \<le> length raw \<and> take 4 raw = [0x54, 0x49, 0x4D, 0x32]")
    case True
    with tr loadFile_spec [of raw t filename] show ?thesis
      by simp
  next
    case False
    let ?t0 = "t\<lparr>m_valid := False, m_pictures := [], m_lastError := []\<rparr>"
    show ?thesis
    proof (cases "length raw < 16")
      case short: True
      from parseFileHeader_short [OF short, of ?t0]
      obtain t' file' where "parseFileHeader ?t0 (open_stream raw) = (False, t', file')"
        and "m_lastError t' = ''Failed to read file header''" and "m_valid t' = False"
        by auto
      with short show ?thesis
        by (simp add: loadFile_def isValid_def)
    next
      case long: False
      with False have "take 4 raw \<noteq> [0x54, 0x49, 0x4D, 0x32]"
        by simp
      with long False show ?thesis
        by (simp add: loadFile_def isValid_def parseFileHeader_full)
    qed
  qed
qed

theorem truncated_file_rejected_witness:
  "spec_truncated (take 100 file_two_levels) \<and>
   16 \<le> length (take 100 file_two_levels) \<and>
   take 4 (take 100 file_two_levels) = [0x54, 0x49, 0x4D, 0x32] \<and>
   \<not> fst (loadFile parser0 ''a.tm2'' (Some (take 100 file_two_levels))) \<and>
   \<not> isValid (snd (loadFile parser0 ''a.tm2'' (Some (take 100 file_two_levels)))) \<and>
   m_lastError (snd (loadFile parser0 ''a.tm2'' (Some (take 100 file_two_levels)))) \<noteq> [] \<and>
   length (getPictures (snd (loadFile parser0 ''a.tm2'' (Some (take 100 file_two_levels)))))
     < unat (pictures (m_fileHeader (snd (loadFile parser0 ''a.tm2''
                                            (Some (take 100 file_two_levels))))))"
proof -
  have tr: "spec_truncated (take 100 file_two_levels)"
    by code_simp
  have len: "16 \<le> length (take 100 file_two_levels)"
    by code_simp
  have magic: "take 4 (take 100 file_two_levels) = [0x54, 0x49, 0x4D, 0x32]"
    by code_simp
  from truncated_file_rejected [OF tr, of parser0 "''a.tm2''"] tr len magic
  show ?thesis
    by simp
qed

text \<open>
  Conversely, an input with a valid signature and no truncated section loads: the
  truncation of a section is the only reason for which a file with the magic
  \<open>TIM2\<close> is rejected.
\<close>

lemma complete_file_accepted:
  assumes "16 \<le> length raw" and "take 4 raw = [0x54, 0x49, 0x4D, 0x32]"
    and "\<not> spec_truncated raw"
  shows "fst (loadFile t filename (Some raw)) \<and> isValid (snd (loadFile t filename (Some raw)))"
  using loadFile_spec [OF assms(1,2), of t filename] assms(3) by simp

text \<open>
  Padding is not a section: a file that ends inside the padding of its last mipmap
  header, with no image or CLUT bytes to follow, has no truncated section and loads.
\<close>

lemma file_ending_in_padding_loads:
  "length file_ends_in_padding = 88 \<and>
   \<not> spec_truncated file_ends_in_padding \<and>
   fst (loadFile parser0 ''a.tm2'' (Some file_ends_in_padding)) \<and>
   isValid (snd (loadFile parser0 ''a.tm2'' (Some file_ends_in_padding)))"
  by code_simp

end
